theory Spec2Isabelle
  imports Main "HOL-Library.Word"
begin

unbundle bit_operations_syntax

section \<open>Machine words\<close>

text \<open>
  \<^verbatim>\<open>pdp8_word_t\<close> is \<^verbatim>\<open>unsigned short\<close>: a 16-bit host word that holds a 12-bit
  PDP-8 word. Bytes of the host image are \<^verbatim>\<open>unsigned char\<close>. The octal constants of
  the source are written in hexadecimal or decimal: \<^verbatim>\<open>0170000 = 0xF000\<close>,
  \<^verbatim>\<open>0377 = 0xFF\<close>, \<^verbatim>\<open>017 = 15\<close>, \<^verbatim>\<open>01400 = 768\<close>, \<^verbatim>\<open>01777 = 1023\<close>.
\<close>

type_synonym pdp8_word = "16 word"
type_synonym byte = "8 word"

definition OS8_BLOCK_SIZE :: nat where
  "OS8_BLOCK_SIZE = 256"

definition DECTAPE_BLOCK_SIZE :: nat where
  "DECTAPE_BLOCK_SIZE = 258"

definition RK05_BLOCK_SIZE :: nat where
  "RK05_BLOCK_SIZE = 384"

section \<open>Word codec\<close>

text \<open>
  \<^verbatim>\<open>byte_buffer_to_word_buffer\<close>: the do-while loop makes one word of two bytes, low byte
  first, \<^verbatim>\<open>OS8_BLOCK_SIZE\<close> times, and gives up (\<open>None\<close>, the source's \<^verbatim>\<open>false\<close>) at
  the first word with a bit above the twelfth.
\<close>

fun word_loop :: "nat \<Rightarrow> byte list \<Rightarrow> pdp8_word list option" where
  "word_loop 0 bs = Some []"
| "word_loop (Suc n) (b0 # b1 # bs) =
     (let w = (ucast b0 :: pdp8_word) OR push_bit 8 (ucast b1) in
      if w AND 0xF000 \<noteq> 0 then None
      else map_option ((#) w) (word_loop n bs))"
| "word_loop (Suc n) _ = None"

definition byte_buffer_to_word_buffer :: "byte list \<Rightarrow> pdp8_word list option" where
  "byte_buffer_to_word_buffer byte_buffer = word_loop OS8_BLOCK_SIZE byte_buffer"

text \<open>
  The byte buffer \<^verbatim>\<open>write_dsk_block\<close> hands to \<^verbatim>\<open>pwrite\<close>: two bytes per word, and no
  buffer at all when a word has a bit above the twelfth.
\<close>

fun dsk_loop :: "pdp8_word list \<Rightarrow> byte list option" where
  "dsk_loop [] = Some []"
| "dsk_loop (w # ws) =
     (if w AND 0xF000 \<noteq> 0 then None
      else map_option (\<lambda>bs. ucast (w AND 0xFF) # ucast (drop_bit 8 w) # bs) (dsk_loop ws))"

definition write_dsk_bytes :: "pdp8_word list \<Rightarrow> byte list option" where
  "write_dsk_bytes block_buffer = dsk_loop block_buffer"

definition read_dsk_bytes :: "byte list \<Rightarrow> pdp8_word list option" where
  "read_dsk_bytes byte_buffer = byte_buffer_to_word_buffer byte_buffer"

text \<open>
  \<^verbatim>\<open>write_dectape_block\<close> writes two physical records of \<^verbatim>\<open>DECTAPE_BLOCK_SIZE\<close> bytes:
  128 words as 256 bytes, then the two zero bytes of the 129th word.
  \<^verbatim>\<open>read_dectape_block\<close> reads the first 256 bytes of each record and skips the rest.
\<close>

definition write_dectape_bytes :: "pdp8_word list \<Rightarrow> byte list option" where
  "write_dectape_bytes block_buffer =
     (case dsk_loop (take 128 block_buffer) of
        None \<Rightarrow> None
      | Some r1 \<Rightarrow>
         (case dsk_loop (drop 128 block_buffer) of
            None \<Rightarrow> None
          | Some r2 \<Rightarrow> Some (r1 @ [0, 0] @ r2 @ [0, 0])))"

definition read_dectape_bytes :: "byte list \<Rightarrow> pdp8_word list option" where
  "read_dectape_bytes image_bytes =
     byte_buffer_to_word_buffer
       (take OS8_BLOCK_SIZE image_bytes @
        take OS8_BLOCK_SIZE (drop DECTAPE_BLOCK_SIZE image_bytes))"

text \<open>
  \<^verbatim>\<open>write_rka_block\<close> and \<^verbatim>\<open>read_rka_block\<close>: two words in three bytes. The stores to
  \<^verbatim>\<open>unsigned char\<close> keep the low eight bits (\<open>ucast\<close>).
\<close>

fun rka_write_loop :: "pdp8_word list \<Rightarrow> byte list option" where
  "rka_write_loop (w1 # w2 # ws) =
     (if w1 AND 0xF000 \<noteq> 0 \<or> w2 AND 0xF000 \<noteq> 0 then None
      else map_option
        (\<lambda>bs. ucast (drop_bit 4 w1) #
              ucast (push_bit 4 (w1 AND 15) OR drop_bit 8 w2) #
              ucast (w2 AND 0xFF) # bs)
        (rka_write_loop ws))"
| "rka_write_loop [] = Some []"
| "rka_write_loop [w] = None"

fun rka_read_loop :: "nat \<Rightarrow> byte list \<Rightarrow> pdp8_word list option" where
  "rka_read_loop 0 bs = Some []"
| "rka_read_loop (Suc n) (c1 # c2 # c3 # bs) =
     map_option
       (\<lambda>ws. (push_bit 4 (ucast c1 :: pdp8_word) OR ucast (drop_bit 4 c2)) #
             (push_bit 8 (ucast (c2 AND 15) :: pdp8_word) OR ucast c3) # ws)
       (rka_read_loop n bs)"
| "rka_read_loop (Suc n) _ = None"

definition write_rka_bytes :: "pdp8_word list \<Rightarrow> byte list option" where
  "write_rka_bytes block_buffer = rka_write_loop block_buffer"

definition read_rka_bytes :: "byte list \<Rightarrow> pdp8_word list option" where
  "read_rka_bytes byte_buffer = rka_read_loop (OS8_BLOCK_SIZE div 2) byte_buffer"

text \<open>
  The bit constraint of the two-byte packing: the high byte of every pair holds four
  bits only.
\<close>

fun two_byte_ok :: "byte list \<Rightarrow> bool" where
  "two_byte_ok (b0 # b1 # bs) = (b1 < 16 \<and> two_byte_ok bs)"
| "two_byte_ok [] = True"
| "two_byte_ok [b] = False"

text \<open>A DECtape record pair with the two ignored words written as zero.\<close>

definition dectape_clean :: "byte list \<Rightarrow> byte list" where
  "dectape_clean bs = take 256 bs @ [0, 0] @ take 256 (drop 258 bs) @ [0, 0]"

section \<open>Results of the model\<close>

text \<open>
  The C program has behaviour that a total function cannot show by itself. A read or a
  write through a pointer that has left the 256 words of its segment, the use of an
  entry that was never assigned, and a failed \<^verbatim>\<open>assert\<close> are faults: the model
  returns \<open>Inl\<close> of the fault and does nothing else. A loop that need not end takes a
  number of iterations it may make (its fuel) and returns \<open>None\<close> when that is used up.
\<close>

datatype fault = OutOfSegment | AssertionFailed | Uninitialised | NullPointer

definition bind_f :: "fault + 'a \<Rightarrow> ('a \<Rightarrow> fault + 'b) \<Rightarrow> fault + 'b" where
  "bind_f r f = (case r of Inl x \<Rightarrow> Inl x | Inr v \<Rightarrow> f v)"

definition bind_o ::
  "(fault + 'a) option \<Rightarrow> ('a \<Rightarrow> (fault + 'b) option) \<Rightarrow> (fault + 'b) option" where
  "bind_o r f = (case r of None \<Rightarrow> None | Some (Inl x) \<Rightarrow> Some (Inl x) | Some (Inr v) \<Rightarrow> f v)"

definition lift_f :: "fault + 'a \<Rightarrow> ('a \<Rightarrow> (fault + 'b) option) \<Rightarrow> (fault + 'b) option" where
  "lift_f r f = (case r of Inl x \<Rightarrow> Some (Inl x) | Inr v \<Rightarrow> f v)"

section \<open>Directory model\<close>

text \<open>
  \<^verbatim>\<open>dir_block_t\<close>: the dirty flag and the 256 words of one directory segment. The
  header of \<^verbatim>\<open>dir_struct_t\<close> overlays the first five words, and \<^verbatim>\<open>file_entries\<close>
  starts at the sixth. \<^verbatim>\<open>directory_t\<close> is an array of \<^verbatim>\<open>DIR_LENGTH\<close> such blocks.
\<close>

record dir_block =
  dirty :: bool
  data :: "pdp8_word list"

type_synonym directory = "dir_block list"

definition DIR_LENGTH :: nat where
  "DIR_LENGTH = 6"

definition number_files :: "dir_block \<Rightarrow> pdp8_word" where
  "number_files b = data b ! 0"

definition first_file_block :: "dir_block \<Rightarrow> pdp8_word" where
  "first_file_block b = data b ! 1"

definition next_segment :: "dir_block \<Rightarrow> pdp8_word" where
  "next_segment b = data b ! 2"

definition flag_word :: "dir_block \<Rightarrow> pdp8_word" where
  "flag_word b = data b ! 3"

definition additional_words :: "dir_block \<Rightarrow> pdp8_word" where
  "additional_words b = data b ! 4"

definition file_entries :: nat where
  "file_entries = 5"

text \<open>
  The shape the C types give every directory: six blocks of 256 words.
\<close>

definition dir_shape :: "directory \<Rightarrow> bool" where
  "dir_shape d = (length d = DIR_LENGTH \<and> list_all (\<lambda>b. length (data b) = OS8_BLOCK_SIZE) d)"

text \<open>
  A pointer into a segment (\<^verbatim>\<open>pdp8_word_t *entry\<close>) is the index of the word in the
  segment's \<^verbatim>\<open>d.data\<close>; a pointer to a block (\<^verbatim>\<open>dir_block_t *\<close>) is the index of the
  block in the directory, \<open>None\<close> for the null pointer of a zero-initialised entry.
  The cursor's \<^verbatim>\<open>dir\<close> is the directory the functions are given.
\<close>

record cursor =
  cur_file_number :: pdp8_word
  cur_next_block :: pdp8_word
  cur_entry :: nat
  cur_dir_block :: nat

record entry =
  empty_file :: bool
  name :: "pdp8_word list"
  e_dir_block :: "nat option"
  e_entry :: nat
  file_block :: pdp8_word
  file_number :: pdp8_word
  e_length :: pdp8_word
  e_additional_words :: "pdp8_word list"
  additional_count :: pdp8_word

definition empty_entry_length :: nat where
  "empty_entry_length = 2"

text \<open>
  \<^verbatim>\<open>negate\<close>: \<^verbatim>\<open>(4096 - word) % 4096\<close> on \<^verbatim>\<open>int\<close>. The remainder of C has the sign of the
  dividend, so a word above 4096 gives a negative result.
\<close>

definition negate :: "pdp8_word \<Rightarrow> int" where
  "negate w = (let x = 4096 - uint w in if 0 \<le> x then x mod 4096 else - ((- x) mod 4096))"

text \<open>The setters that mark the block dirty.\<close>

definition bump_number_files :: "dir_block \<Rightarrow> int \<Rightarrow> dir_block" where
  "bump_number_files b amount =
     b\<lparr>dirty := True, data := (data b)[0 := word_of_int (uint (number_files b) - amount)]\<rparr>"

definition bump_first_file_block :: "dir_block \<Rightarrow> int \<Rightarrow> dir_block" where
  "bump_first_file_block b amount =
     b\<lparr>dirty := True, data := (data b)[1 := word_of_int (uint (first_file_block b) + amount)]\<rparr>"

definition set_next_segment :: "dir_block \<Rightarrow> int \<Rightarrow> dir_block" where
  "set_next_segment b n = b\<lparr>dirty := True, data := (data b)[2 := word_of_int n]\<rparr>"

definition init_cursor :: "directory \<Rightarrow> cursor" where
  "init_cursor d =
     \<lparr>cur_file_number = 1, cur_next_block = first_file_block (d ! 0),
      cur_entry = file_entries, cur_dir_block = 0\<rparr>"

definition overflowed_segment :: "directory \<Rightarrow> cursor \<Rightarrow> bool" where
  "overflowed_segment d c =
     (uint (cur_file_number c) > negate (number_files (d ! cur_dir_block c)))"

text \<open>
  \<^verbatim>\<open>valid_entry\<close>: the loop follows the links of exhausted segments; on a chain of
  exhausted segments that closes on itself it never ends, so it takes fuel.
\<close>

fun valid_entry :: "nat \<Rightarrow> directory \<Rightarrow> cursor \<Rightarrow> (fault + bool \<times> cursor) option" where
  "valid_entry 0 d c = None"
| "valid_entry (Suc n) d c =
     (if overflowed_segment d c then
        (let nxt = unat (next_segment (d ! cur_dir_block c)) in
         if nxt = 0 then Some (Inr (False, c))
         else if nxt > DIR_LENGTH then Some (Inl AssertionFailed)
         else valid_entry n d
                (c\<lparr>cur_file_number := 1, cur_dir_block := nxt - 1,
                   cur_next_block := first_file_block (d ! (nxt - 1)),
                   cur_entry := file_entries\<rparr>))
      else Some (Inr (True, c)))"

text \<open>
  \<^verbatim>\<open>file_entry_length\<close> returns \<^verbatim>\<open>unsigned\<close>: the sum is reduced modulo \<open>2 ^ 32\<close>.
\<close>

definition file_entry_length :: "dir_block \<Rightarrow> nat" where
  "file_entry_length b = nat ((4 + 1 + negate (additional_words b)) mod 2 ^ 32)"

definition entry_length :: "directory \<Rightarrow> entry \<Rightarrow> fault + nat" where
  "entry_length d e =
     (if empty_file e then Inr empty_entry_length
      else (case e_dir_block e of
              None \<Rightarrow> Inl NullPointer
            | Some i \<Rightarrow> Inr (file_entry_length (d ! i))))"

definition advance_cursor :: "directory \<Rightarrow> cursor \<Rightarrow> entry \<Rightarrow> fault + cursor" where
  "advance_cursor d c e =
     bind_f (entry_length d e) (\<lambda>len.
       Inr (c\<lparr>cur_file_number := cur_file_number c + 1,
              cur_entry := cur_entry c + len,
              cur_next_block := cur_next_block c + e_length e\<rparr>))"

definition restore_cursor :: "cursor \<Rightarrow> entry \<Rightarrow> fault + cursor" where
  "restore_cursor c e =
     (case e_dir_block e of
        None \<Rightarrow> Inl NullPointer
      | Some i \<Rightarrow>
          Inr (c\<lparr>cur_file_number := file_number e, cur_entry := e_entry e,
                 cur_next_block := file_block e, cur_dir_block := i\<rparr>))"

text \<open>Reading and writing one word of a segment through a pointer.\<close>

definition rd :: "pdp8_word list \<Rightarrow> nat \<Rightarrow> fault + pdp8_word" where
  "rd ws p = (if p < OS8_BLOCK_SIZE then Inr (ws ! p) else Inl OutOfSegment)"

definition wr :: "pdp8_word list \<Rightarrow> nat \<Rightarrow> pdp8_word \<Rightarrow> fault + pdp8_word list" where
  "wr ws p w = (if p < OS8_BLOCK_SIZE then Inr (ws[p := w]) else Inl OutOfSegment)"

fun rd_many :: "pdp8_word list \<Rightarrow> nat \<Rightarrow> nat \<Rightarrow> fault + pdp8_word list" where
  "rd_many ws p 0 = Inr []"
| "rd_many ws p (Suc k) =
     bind_f (rd ws p) (\<lambda>w. bind_f (rd_many ws (Suc p) k) (\<lambda>r. Inr (w # r)))"

fun wr_many :: "pdp8_word list \<Rightarrow> nat \<Rightarrow> pdp8_word list \<Rightarrow> fault + pdp8_word list" where
  "wr_many ws p [] = Inr ws"
| "wr_many ws p (w # r) = bind_f (wr ws p w) (\<lambda>ws'. wr_many ws' (Suc p) r)"

text \<open>
  \<^verbatim>\<open>peek_entry\<close> fills the caller's entry: the fields it does not assign (the name and
  the additional words of an empty file) keep what the caller's variable held.
\<close>

definition peek_entry :: "directory \<Rightarrow> cursor \<Rightarrow> entry \<Rightarrow> fault + entry" where
  "peek_entry d c e0 =
     (let b = d ! cur_dir_block c; ws = data b; p = cur_entry c;
          e1 = e0\<lparr>file_block := cur_next_block c, e_dir_block := Some (cur_dir_block c),
                  e_entry := p, file_number := cur_file_number c\<rparr>
      in bind_f (rd ws p) (\<lambda>w0.
           if w0 = 0 then
             bind_f (rd ws (p + 1)) (\<lambda>l.
               Inr (e1\<lparr>empty_file := True, e_length := word_of_int (negate l)\<rparr>))
           else
             bind_f (rd_many ws p 4) (\<lambda>nm.
               let cnt = (word_of_int (negate (additional_words b)) :: pdp8_word);
                   k = min 10 (unat cnt)
               in bind_f (rd_many ws (p + 4) k) (\<lambda>aw.
                    bind_f (rd ws (p + 4 + unat cnt)) (\<lambda>l.
                      Inr (e1\<lparr>empty_file := False, name := nm, additional_count := cnt,
                             e_additional_words := aw @ drop k (e_additional_words e1),
                             e_length := word_of_int (negate l)\<rparr>))))))"

definition get_entry :: "directory \<Rightarrow> cursor \<Rightarrow> entry \<Rightarrow> fault + cursor \<times> entry" where
  "get_entry d c e0 =
     bind_f (peek_entry d c e0) (\<lambda>e.
       bind_f (advance_cursor d c e) (\<lambda>c'. Inr (c', e)))"

text \<open>
  \<^verbatim>\<open>put_entry\<close> marks the block dirty and writes the entry at its pointer.
\<close>

definition put_entry :: "directory \<Rightarrow> entry \<Rightarrow> fault + directory" where
  "put_entry d e =
     (case e_dir_block e of
        None \<Rightarrow> Inl NullPointer
      | Some i \<Rightarrow>
          (let b = d ! i; p = e_entry e; len = (word_of_int (negate (e_length e)) :: pdp8_word)
           in bind_f
                (if empty_file e then wr_many (data b) p [0, len]
                 else bind_f (wr_many (data b) p (take 4 (name e))) (\<lambda>ws1.
                        bind_f (wr_many ws1 (p + 4)
                                  (take (min 10 (unat (additional_count e)))
                                     (e_additional_words e))) (\<lambda>ws2.
                          wr ws2 (p + 4 + unat (additional_count e)) len)))
                (\<lambda>ws. Inr (d[i := b\<lparr>dirty := True, data := ws\<rparr>]))))"

text \<open>
  The two copying loops. \<^verbatim>\<open>shuffle_words_up\<close> runs from \<^verbatim>\<open>src\<close> down to \<^verbatim>\<open>last\<close>,
  \<^verbatim>\<open>shuffle_words_down\<close> from \<^verbatim>\<open>src\<close> up to \<^verbatim>\<open>last\<close>.
\<close>

function shuffle_words_up ::
  "pdp8_word list \<Rightarrow> nat \<Rightarrow> nat \<Rightarrow> nat \<Rightarrow> fault + pdp8_word list" where
  "shuffle_words_up ws src dst lst =
     (if src \<ge> lst then
        (if src < OS8_BLOCK_SIZE \<and> dst < OS8_BLOCK_SIZE then
           (if src = 0 then Inr (ws[dst := ws ! src])
            else if dst = 0 then Inl OutOfSegment
            else shuffle_words_up (ws[dst := ws ! src]) (src - 1) (dst - 1) lst)
         else Inl OutOfSegment)
      else Inr ws)"
  by pat_completeness auto
termination
  by (relation "measure (\<lambda>(ws, src, dst, lst). src)") auto

declare shuffle_words_up.simps [simp del]

function shuffle_words_down ::
  "pdp8_word list \<Rightarrow> nat \<Rightarrow> nat \<Rightarrow> nat \<Rightarrow> fault + pdp8_word list" where
  "shuffle_words_down ws src dst lst =
     (if src \<le> lst then
        (if src < OS8_BLOCK_SIZE \<and> dst < OS8_BLOCK_SIZE then
           shuffle_words_down (ws[dst := ws ! src]) (src + 1) (dst + 1) lst
         else Inl OutOfSegment)
      else Inr ws)"
  by pat_completeness auto
termination
  by (relation "measure (\<lambda>(ws, src, dst, lst). Suc lst - src)") auto

declare shuffle_words_down.simps [simp del]

text \<open>
  \<^verbatim>\<open>fix_segment_up\<close> and \<^verbatim>\<open>fix_segment_down\<close> move the words of the entry's segment and
  adjust the flag word when it points beyond the entry. Neither marks the block dirty.
  The comparison of the two pointers is the comparison of their word indices; the
  arithmetic on the flag word is \<^verbatim>\<open>unsigned\<close>, stored back into 16 bits.
\<close>

definition fix_segment_up :: "directory \<Rightarrow> entry \<Rightarrow> nat \<Rightarrow> nat \<Rightarrow> fault + directory" where
  "fix_segment_up d e offset first_byte =
     (case e_dir_block e of
        None \<Rightarrow> Inl NullPointer
      | Some i \<Rightarrow>
          bind_f (shuffle_words_up (data (d ! i)) first_byte (first_byte + offset) (e_entry e))
            (\<lambda>ws.
              let fw = ws ! 3;
                  fw' = (if fw \<noteq> 0 \<and> uint fw - 768 > int (e_entry e)
                         then (if (unat fw + offset) mod 2 ^ 32 > 1023 then 0
                               else word_of_nat (unat fw + offset))
                         else fw)
              in Inr (d[i := (d ! i)\<lparr>data := ws[3 := fw']\<rparr>])))"

definition fix_segment_down :: "directory \<Rightarrow> entry \<Rightarrow> nat \<Rightarrow> fault + directory" where
  "fix_segment_down d e offset =
     (case e_dir_block e of
        None \<Rightarrow> Inl NullPointer
      | Some i \<Rightarrow>
          bind_f (entry_length d e) (\<lambda>len.
            bind_f (shuffle_words_down (data (d ! i)) (e_entry e + len) (e_entry e + offset)
                      (OS8_BLOCK_SIZE - 1))
              (\<lambda>ws.
                let d1 = d[i := (d ! i)\<lparr>data := ws\<rparr>];
                    fw = ws ! 3
                in if fw \<noteq> 0 \<and> uint fw - 768 > int (e_entry e)
                   then bind_f (entry_length d1 e) (\<lambda>len1.
                          Inr (d[i := (d ! i)\<lparr>data := ws[3 := fw - (word_of_nat len1 - word_of_nat offset)]\<rparr>]))
                   else Inr d1)))"

text \<open>
  \<^verbatim>\<open>validate_directory\<close>: the do-while loop over the chain of segments. The test of the
  flag word reads \<^verbatim>\<open>directory->d.dir_struct.flag_word\<close>, the flag word of the first
  block, for the lower bound. On a chain that closes on itself the loop never ends.
\<close>

fun validate_loop :: "nat \<Rightarrow> directory \<Rightarrow> nat \<Rightarrow> bool option" where
  "validate_loop 0 d i = None"
| "validate_loop (Suc n) d i =
     (let b = d ! i in
      if \<not> (next_segment b \<le> 6 \<and> number_files b \<noteq> 0 \<and>
             negate (number_files b) < 100 \<and>
             negate (additional_words b) < 10 \<and>
             (flag_word b = 0 \<or> (flag_word (d ! 0) \<ge> 768 \<and> flag_word b \<le> 1023)))
      then Some False
      else if next_segment b = 0 then Some True
      else validate_loop n d (unat (next_segment b) - 1))"

definition validate_directory :: "nat \<Rightarrow> directory \<Rightarrow> bool option" where
  "validate_directory fuel d = validate_loop fuel d 0"

text \<open>
  \<^verbatim>\<open>read_directory\<close> reads the segments of the chain through the device's block reader
  (\<open>None\<close> when the reader fails), refuses a link beyond \<^verbatim>\<open>DIR_LENGTH\<close>, and then
  validates. \<^verbatim>\<open>FIRST_DIR_BLOCK\<close> is 1.
\<close>

definition FIRST_DIR_BLOCK :: nat where
  "FIRST_DIR_BLOCK = 1"

fun read_directory_loop ::
  "nat \<Rightarrow> (nat \<Rightarrow> pdp8_word list option) \<Rightarrow> directory \<Rightarrow> nat \<Rightarrow> (bool \<times> directory) option" where
  "read_directory_loop 0 read_block d block_no = None"
| "read_directory_loop (Suc n) read_block d block_no =
     (case read_block block_no of
        None \<Rightarrow> Some (False, d)
      | Some blk \<Rightarrow>
          (let i = block_no - FIRST_DIR_BLOCK;
               d' = d[i := \<lparr>dirty = False, data = blk\<rparr>];
               nxt = unat (next_segment (d' ! i))
           in if nxt > DIR_LENGTH then Some (False, d')
              else if nxt \<noteq> 0 then read_directory_loop n read_block d' nxt
              else Some (True, d')))"

definition read_directory ::
  "nat \<Rightarrow> (nat \<Rightarrow> pdp8_word list option) \<Rightarrow> directory \<Rightarrow> (bool \<times> directory) option" where
  "read_directory fuel read_block d =
     (case read_directory_loop fuel read_block d FIRST_DIR_BLOCK of
        None \<Rightarrow> None
      | Some (ok, d') \<Rightarrow>
          if \<not> ok then Some (False, d')
          else (case validate_directory fuel d' of
                  None \<Rightarrow> None
                | Some v \<Rightarrow> Some (v, d')))"

text \<open>
  \<^verbatim>\<open>delete_entry\<close>: the segment is moved down onto the end of the empty entry that
  replaces the file, then the entry is written as an empty file.
\<close>

definition delete_entry :: "directory \<Rightarrow> entry \<Rightarrow> fault + directory \<times> entry" where
  "delete_entry d e =
     bind_f (fix_segment_down d e empty_entry_length) (\<lambda>d1.
       let e' = e\<lparr>empty_file := True\<rparr>
       in bind_f (put_entry d1 e') (\<lambda>d2. Inr (d2, e')))"

text \<open>
  A directory of two segments, each holding one empty file. The flag word of the first
  segment is \<^verbatim>\<open>01400\<close>; the flag word of the second is 1, which is neither 0 nor in
  \<^verbatim>\<open>01400..01777\<close>. \<open>bad_flag_reader\<close> is a device whose blocks 1 and 2 hold them.
\<close>

definition zero_block :: dir_block where
  "zero_block = \<lparr>dirty = False, data = replicate 256 0\<rparr>"

definition bad_flag_directory :: directory where
  "bad_flag_directory =
     [\<lparr>dirty = False, data = [4095, 7, 2, 768, 4095, 0, 4086] @ replicate 249 0\<rparr>,
      \<lparr>dirty = False, data = [4095, 17, 0, 1, 4095, 0, 4086] @ replicate 249 0\<rparr>,
      zero_block, zero_block, zero_block, zero_block]"

definition bad_flag_reader :: "nat \<Rightarrow> pdp8_word list option" where
  "bad_flag_reader block_no =
     (if block_no = 1 then Some ([4095, 7, 2, 768, 4095, 0, 4086] @ replicate 249 0)
      else if block_no = 2 then Some ([4095, 17, 0, 1, 4095, 0, 4086] @ replicate 249 0)
      else None)"

section \<open>Walking the directory\<close>

text \<open>
  The loop \<^verbatim>\<open>while (valid_entry(&cursor)) { get_entry(&cursor, &entry); ... }\<close> of
  \<^verbatim>\<open>print_directory\<close>, \<^verbatim>\<open>get_empty_entry\<close> and \<^verbatim>\<open>lookup\<close>, with a body that only
  looks at the entry: \<open>walk\<close> gives the entries in the order the loop meets them. The
  loop never ends on a directory whose chain closes on itself, so it takes fuel.
\<close>

fun walk :: "nat \<Rightarrow> directory \<Rightarrow> cursor \<Rightarrow> entry \<Rightarrow> (fault + entry list) option" where
  "walk 0 d c entry = None"
| "walk (Suc n) d c entry =
     bind_o (valid_entry n d c) (\<lambda>(ok, c1).
       if \<not> ok then Some (Inr [])
       else lift_f (get_entry d c1 entry) (\<lambda>(c2, e).
              bind_o (walk n d c2 e) (\<lambda>es. Some (Inr (e # es)))))"

text \<open>
  \<^verbatim>\<open>get_empty_entry\<close>. The local \<^verbatim>\<open>entry\<close> is not initialised in the source; the model
  starts it as \<open>blank_entry\<close>, which can only show in the fields \<^verbatim>\<open>peek_entry\<close> does not
  assign for an empty file. \<open>better\<close> is the test of the loop body, \<open>len\<close> the
  \<^verbatim>\<open>unsigned length\<close>. The result is the returned flag and the caller's \<^verbatim>\<open>best_entry\<close>.
\<close>

definition blank_entry :: entry where
  "blank_entry =
     \<lparr>empty_file = False, name = replicate 4 0, e_dir_block = None, e_entry = 0,
      file_block = 0, file_number = 0, e_length = 0,
      e_additional_words = replicate 10 0, additional_count = 0\<rparr>"

definition better :: "entry \<Rightarrow> nat \<Rightarrow> entry \<Rightarrow> entry \<Rightarrow> bool" where
  "better exclude_entry len best e =
     ((e_dir_block e \<noteq> e_dir_block exclude_entry \<or>
       file_number e \<noteq> file_number exclude_entry) \<and>
      empty_file e \<and> unat (e_length e) \<ge> len \<and>
      (e_length best = 0 \<or>
       (if len = 0 then e_length e > e_length best else e_length e < e_length best)))"

fun get_empty_loop ::
  "nat \<Rightarrow> directory \<Rightarrow> entry \<Rightarrow> nat \<Rightarrow> cursor \<Rightarrow> entry \<Rightarrow> entry \<Rightarrow> (fault + entry) option" where
  "get_empty_loop 0 d exclude_entry len c entry best = None"
| "get_empty_loop (Suc n) d exclude_entry len c entry best =
     bind_o (valid_entry n d c) (\<lambda>(ok, c1).
       if \<not> ok then Some (Inr best)
       else lift_f (get_entry d c1 entry) (\<lambda>(c2, e).
              get_empty_loop n d exclude_entry len c2 e
                (if better exclude_entry len best e then e else best)))"

definition get_empty_entry ::
  "nat \<Rightarrow> directory \<Rightarrow> entry \<Rightarrow> entry \<Rightarrow> nat \<Rightarrow> (fault + bool \<times> entry) option" where
  "get_empty_entry fuel d exclude_entry best_entry len =
     bind_o (get_empty_loop fuel d exclude_entry len (init_cursor d) blank_entry
               (best_entry\<lparr>e_length := 0\<rparr>))
       (\<lambda>best. Some (Inr (e_length best \<noteq> 0, best)))"

text \<open>
  The candidates of an allocation, for the statements about \<^verbatim>\<open>get_empty_entry\<close>: the
  empty files of non-zero length that are not the excluded entry (by block and file
  number) and are long enough.
\<close>

definition candidate :: "entry \<Rightarrow> nat \<Rightarrow> entry \<Rightarrow> bool" where
  "candidate exclude_entry len e =
     (empty_file e \<and>
      (e_dir_block e \<noteq> e_dir_block exclude_entry \<or>
       file_number e \<noteq> file_number exclude_entry) \<and>
      unat (e_length e) \<ge> len \<and> e_length e \<noteq> 0)"

section \<open>Consolidation\<close>

text \<open>
  A change of one block through a pointer to it.
\<close>

definition on_block :: "directory \<Rightarrow> nat option \<Rightarrow> (dir_block \<Rightarrow> dir_block) \<Rightarrow> fault + directory" where
  "on_block d p f = (case p of None \<Rightarrow> Inl NullPointer | Some i \<Rightarrow> Inr (d[i := f (d ! i)]))"

text \<open>
  \<^verbatim>\<open>consolidate\<close>: one pass of the cursor. \<open>consolidate_step\<close> is the body of the loop
  for a cursor that \<^verbatim>\<open>valid_entry\<close> has accepted; it gives the directory, the cursor and
  the two locals \<^verbatim>\<open>entry\<close> and \<^verbatim>\<open>next_entry\<close> for the next round. After the removal of
  an empty file of length zero the cursor is left where \<^verbatim>\<open>get_entry\<close> put it; after a
  merge it is set back to the merged entry.
\<close>

definition consolidate_step ::
  "directory \<Rightarrow> cursor \<Rightarrow> entry \<Rightarrow> entry \<Rightarrow> fault + directory \<times> cursor \<times> entry \<times> entry" where
  "consolidate_step d c1 entry next_entry =
     (case get_entry d c1 entry of
        Inl f \<Rightarrow> Inl f
      | Inr (c2, e) \<Rightarrow>
     (case peek_entry d c2 next_entry of
        Inl f \<Rightarrow> Inl f
      | Inr ne \<Rightarrow>
         if empty_file e then
           (if e_length e = 0 then
              (case fix_segment_down d e 0 of
                 Inl f \<Rightarrow> Inl f
               | Inr d1 \<Rightarrow>
              (case on_block d1 (e_dir_block e) (\<lambda>b. bump_number_files b (- 1)) of
                 Inl f \<Rightarrow> Inl f
               | Inr d2 \<Rightarrow> Inr (d2, c2, e, ne)))
            else if \<not> overflowed_segment d c2 \<and> empty_file ne then
              (let e' = e\<lparr>e_length := e_length e + e_length ne\<rparr> in
               (case put_entry d e' of
                  Inl f \<Rightarrow> Inl f
                | Inr d1 \<Rightarrow>
               (case fix_segment_down d1 ne 0 of
                  Inl f \<Rightarrow> Inl f
                | Inr d2 \<Rightarrow>
               (case on_block d2 (e_dir_block e') (\<lambda>b. bump_number_files b (- 1)) of
                  Inl f \<Rightarrow> Inl f
                | Inr d3 \<Rightarrow>
               (case restore_cursor c2 e' of
                  Inl f \<Rightarrow> Inl f
                | Inr c3 \<Rightarrow> Inr (d3, c3, e', ne))))))
            else Inr (d, c2, e, ne))
         else Inr (d, c2, e, ne)))"

primrec consolidate_loop ::
  "nat \<Rightarrow> directory \<Rightarrow> cursor \<Rightarrow> entry \<Rightarrow> entry \<Rightarrow> (fault + directory) option" where
  "consolidate_loop 0 d c entry next_entry = None"
| "consolidate_loop (Suc n) d c entry next_entry =
     bind_o (valid_entry n d c) (\<lambda>(ok, c1).
       if \<not> ok then Some (Inr d)
       else lift_f (consolidate_step d c1 entry next_entry) (\<lambda>(d', c', entry', next_entry').
              consolidate_loop n d' c' entry' next_entry'))"

definition consolidate :: "nat \<Rightarrow> directory \<Rightarrow> (fault + directory) option" where
  "consolidate fuel d = consolidate_loop fuel d (init_cursor d) blank_entry blank_entry"

section \<open>Insertion\<close>

text \<open>
  \<^verbatim>\<open>get_last_entry\<close> walks the entries of one block; the caller's entry stays unassigned
  (\<open>None\<close>) when the block holds no file. The file number grows at every step and the
  count of files is below 4096, so the loop ends.
\<close>

function get_last_loop :: "directory \<Rightarrow> cursor \<Rightarrow> entry option \<Rightarrow> fault + entry option" where
  "get_last_loop d c e =
     (if overflowed_segment d c then Inr e
      else (case peek_entry d c (case e of None \<Rightarrow> blank_entry | Some x \<Rightarrow> x) of
              Inl f \<Rightarrow> Inl f
            | Inr e' \<Rightarrow>
                (case advance_cursor d c e' of
                   Inl f \<Rightarrow> Inl f
                 | Inr c' \<Rightarrow> get_last_loop d c' (Some e'))))"
  by pat_completeness auto
termination
proof (relation "measure (\<lambda>(d, c, e). 65536 - unat (cur_file_number c))")
  show "wf (measure (\<lambda>(d, c, e). 65536 - unat (cur_file_number c)))"
    by simp
next
  fix d :: directory and c :: cursor and e :: "entry option" and e' :: entry and c' :: cursor
  assume ov: "\<not> overflowed_segment d c"
    and adv: "advance_cursor d c e' = Inr c'"
  have n: "negate w < 4096" for w
  proof (cases "0 \<le> 4096 - uint w")
    case True
    then show ?thesis by (simp add: negate_def Let_def)
  next
    case False
    have "0 \<le> (- (4096 - uint w)) mod 4096" by simp
    then show ?thesis using False by (simp add: negate_def Let_def)
  qed
  from ov have "uint (cur_file_number c) \<le> negate (number_files (d ! cur_dir_block c))"
    by (simp add: overflowed_segment_def)
  with n[of "number_files (d ! cur_dir_block c)"] have "uint (cur_file_number c) < 4096"
    by linarith
  then have lt: "unat (cur_file_number c) < 4096"
    unfolding unat_eq_nat_uint by arith
  from adv have "cur_file_number c' = cur_file_number c + 1"
    by (auto simp: advance_cursor_def bind_f_def split: sum.splits)
  moreover have "unat (cur_file_number c + 1) = unat (cur_file_number c) + 1"
    using lt by (simp add: unat_word_ariths)
  ultimately show "((d, c', Some e'), (d, c, e)) \<in> measure (\<lambda>(d, c, e). 65536 - unat (cur_file_number c))"
    using lt by simp
qed

declare get_last_loop.simps [simp del]

definition get_last_entry :: "directory \<Rightarrow> nat \<Rightarrow> fault + entry option" where
  "get_last_entry d i =
     get_last_loop d
       \<lparr>cur_file_number = 1, cur_next_block = first_file_block (d ! i),
        cur_entry = file_entries, cur_dir_block = i\<rparr> None"

text \<open>
  \<^verbatim>\<open>get_unused_ptr\<close>: the first free word of the block when \<open>sz\<close> (the source's \<^verbatim>\<open>size\<close>) more words fit
  behind it, the null pointer (\<open>None\<close>) otherwise. It reads the entry that
  \<^verbatim>\<open>get_last_entry\<close> was to assign.
\<close>

definition get_unused_ptr :: "directory \<Rightarrow> nat \<Rightarrow> nat \<Rightarrow> fault + nat option" where
  "get_unused_ptr d i sz =
     bind_f (get_last_entry d i) (\<lambda>r.
       case r of
         None \<Rightarrow> Inl Uninitialised
       | Some e \<Rightarrow>
           bind_f (entry_length d e) (\<lambda>len.
             let empty_ptr = e_entry e + len
             in Inr (if empty_ptr + sz < OS8_BLOCK_SIZE then Some empty_ptr else None)))"

text \<open>
  The move of the last entry of \<open>dir_block\<close> to the front of \<open>next_dir_block\<close>, the
  body of the inner loop of \<^verbatim>\<open>enter\<close> when the next segment has room. The result holds
  the directory and the caller's entry, which is rebound when it was the entry moved.
\<close>

definition move_last ::
  "directory \<Rightarrow> entry \<Rightarrow> nat \<Rightarrow> nat \<Rightarrow> nat \<Rightarrow> fault + directory \<times> entry" where
  "move_last d entry dir_block next_dir_block next_unused_ptr =
     bind_f (get_last_entry d dir_block) (\<lambda>r.
       case r of
         None \<Rightarrow> Inl Uninitialised
       | Some last_entry \<Rightarrow>
           (let move_entry = (file_number last_entry = file_number entry \<and>
                              e_dir_block last_entry = e_dir_block entry);
                d1 = d[dir_block := bump_number_files (d ! dir_block) (- 1)];
                d2 = d1[next_dir_block := bump_number_files (d1 ! next_dir_block) 1];
                d3 = d2[next_dir_block :=
                          bump_first_file_block (d2 ! next_dir_block) (- uint (e_length last_entry))];
                moved = last_entry\<lparr>e_dir_block := Some next_dir_block, e_entry := file_entries,
                                    file_number := 1,
                                    file_block := first_file_block (d3 ! next_dir_block)\<rparr>
            in bind_f (entry_length d3 moved) (\<lambda>len.
                 bind_f (fix_segment_up d3 moved len next_unused_ptr) (\<lambda>d4.
                   bind_f (put_entry d4 moved) (\<lambda>d5.
                     Inr (d5, if move_entry then moved else entry))))))"

text \<open>
  The inner loop of \<^verbatim>\<open>enter\<close>: it follows the links from \<open>dir_block\<close> to the first
  segment with room and moves one entry into it, or runs off the end of the chain. The
  result holds the block the loop stopped at.
\<close>

primrec find_room ::
  "nat \<Rightarrow> directory \<Rightarrow> nat \<Rightarrow> entry \<Rightarrow> nat \<Rightarrow> (fault + directory \<times> entry \<times> nat) option" where
  "find_room 0 d min_free_length entry dir_block = None"
| "find_room (Suc n) d min_free_length entry dir_block =
     (let nxt = unat (next_segment (d ! dir_block)) in
      if nxt = 0 then Some (Inr (d, entry, dir_block))
      else if nxt > DIR_LENGTH then Some (Inl OutOfSegment)
      else lift_f (get_unused_ptr d (nxt - 1) min_free_length) (\<lambda>p.
             case p of
               Some next_unused_ptr \<Rightarrow>
                 lift_f (move_last d entry dir_block (nxt - 1) next_unused_ptr) (\<lambda>(d', entry').
                   Some (Inr (d', entry', dir_block)))
             | None \<Rightarrow> find_room n d min_free_length entry (nxt - 1)))"

text \<open>
  The new segment behind the last one of the chain: \<open>None\<close> when no block is left
  (\<^verbatim>\<open>return false\<close>). The block of the new segment is not marked dirty here. Its first
  file block is the file block of the last entry plus \<^verbatim>\<open>entry_length\<close> of that entry.
\<close>

definition allocate_segment :: "directory \<Rightarrow> nat \<Rightarrow> fault + directory option" where
  "allocate_segment d dir_block =
     (let index = dir_block + 1 in
      if index < DIR_LENGTH then
        (let d1 = d[dir_block := set_next_segment (d ! dir_block) (int index + 1)];
             d2 = d1[index := (d1 ! index)\<lparr>data := (data (d1 ! index))[0 := word_of_int (negate 1)]\<rparr>]
         in bind_f (get_last_entry d2 dir_block) (\<lambda>r.
              case r of
                None \<Rightarrow> Inl Uninitialised
              | Some temp_entry \<Rightarrow>
                  bind_f (entry_length d2 temp_entry) (\<lambda>len.
                    Inr (Some (d2[index := (d2 ! index)\<lparr>data :=
                      (data (d2 ! index))
                        [1 := file_block temp_entry + word_of_nat len,
                         2 := 0, 3 := 0,
                         4 := additional_words (d2 ! dir_block),
                         5 := 0, 6 := 0]\<rparr>])))))
      else Inr None)"

text \<open>
  The outer loop of \<^verbatim>\<open>enter\<close>. The result holds the directory and, unless no block was
  left for a new segment, the entry and the pointer to the first free word of its block.
\<close>

primrec enter_loop ::
  "nat \<Rightarrow> directory \<Rightarrow> nat \<Rightarrow> entry \<Rightarrow> (fault + directory \<times> (entry \<times> nat) option) option" where
  "enter_loop 0 d min_free_length entry = None"
| "enter_loop (Suc n) d min_free_length entry =
     (case e_dir_block entry of
        None \<Rightarrow> Some (Inl NullPointer)
      | Some eb \<Rightarrow>
          lift_f (get_unused_ptr d eb min_free_length) (\<lambda>p.
            case p of
              Some unused_ptr \<Rightarrow> Some (Inr (d, Some (entry, unused_ptr)))
            | None \<Rightarrow>
                bind_o (find_room n d min_free_length entry eb) (\<lambda>(d1, entry1, dir_block).
                  lift_f (if next_segment (d1 ! dir_block) = 0
                          then allocate_segment d1 dir_block
                          else Inr (Some d1)) (\<lambda>r.
                    case r of
                      None \<Rightarrow> Some (Inr (d1, None))
                    | Some d2 \<Rightarrow> enter_loop n d2 min_free_length entry1))))"

section \<open>File names\<close>

text \<open>
  \<^verbatim>\<open>build_sixbit\<close>. A \<^verbatim>\<open>char\<close> is taken as signed; \<^verbatim>\<open>tolower\<close> is that of the C locale.
  A ninth character would be stored behind the four words of the name: a fault.
  \<^verbatim>\<open>0140 = 96\<close>.
\<close>

definition signed_char :: "char \<Rightarrow> int" where
  "signed_char c = (let n = int (of_char c :: nat) in if n \<ge> 128 then n - 256 else n)"

definition c_tolower :: "int \<Rightarrow> int" where
  "c_tolower c = (if 65 \<le> c \<and> c \<le> 90 then c + 32 else c)"

fun build_sixbit_loop :: "string \<Rightarrow> nat \<Rightarrow> pdp8_word list \<Rightarrow> fault + pdp8_word list" where
  "build_sixbit_loop [] i nm = Inr nm"
| "build_sixbit_loop (s # ss) i nm =
     (if s = CHR ''*'' then build_sixbit_loop ss i nm
      else if s = CHR ''.'' then build_sixbit_loop ss 6 nm
      else
        (let c0 = c_tolower (signed_char s);
             c = (if c0 < 96 then c0 else c0 - 96);
             w = (word_of_int c :: pdp8_word)
         in if i div 2 \<ge> 4 then Inl OutOfSegment
            else build_sixbit_loop ss (i + 1)
                   (nm[i div 2 := (if odd i then w OR nm ! (i div 2) else push_bit 6 w)])))"

definition build_sixbit :: "string \<Rightarrow> fault + pdp8_word list" where
  "build_sixbit filename = build_sixbit_loop filename 0 [0, 0, 0, 0]"

text \<open>
  \<^verbatim>\<open>build_mask\<close> and \<^verbatim>\<open>build_mask_part\<close>; \<^verbatim>\<open>07700 = 4032\<close>, \<^verbatim>\<open>07777 = 4095\<close>.
\<close>

fun build_mask_part :: "string \<Rightarrow> pdp8_word list \<Rightarrow> nat \<Rightarrow> nat \<Rightarrow> pdp8_word list" where
  "build_mask_part [] msk i finish = msk"
| "build_mask_part (s # ss) msk i finish =
     (if s = CHR ''.'' then msk
      else if s = CHR ''*'' then
        foldl (\<lambda>m k. m[k div 2 := m ! (k div 2) AND (if odd k then 4032 else 0)]) msk
          [i ..< Suc finish]
      else build_mask_part ss msk (i + 1) finish)"

definition build_mask :: "string \<Rightarrow> pdp8_word list" where
  "build_mask filename =
     (let m = build_mask_part filename [4095, 4095, 4095, 4095] 0 5 in
      if CHR ''.'' \<in> set filename
      then build_mask_part (tl (dropWhile (\<lambda>c. c \<noteq> CHR ''.'') filename)) m 6 7
      else m)"

record pattern =
  p_mask :: "pdp8_word list"
  p_match :: "pdp8_word list"

definition build_pattern :: "string \<Rightarrow> fault + pattern" where
  "build_pattern filename =
     bind_f (build_sixbit filename) (\<lambda>m. Inr \<lparr>p_mask = build_mask filename, p_match = m\<rparr>)"

definition pattern_match_p :: "pdp8_word list \<Rightarrow> pattern \<Rightarrow> bool" where
  "pattern_match_p nm pat =
     (\<not> ((nm ! 0 XOR p_match pat ! 0) AND p_mask pat ! 0 \<noteq> 0 \<or>
         (nm ! 1 XOR p_match pat ! 1) AND p_mask pat ! 1 \<noteq> 0 \<or>
         (nm ! 2 XOR p_match pat ! 2) AND p_mask pat ! 2 \<noteq> 0 \<or>
         (nm ! 3 XOR p_match pat ! 3) AND p_mask pat ! 3 \<noteq> 0))"

text \<open>
  \<^verbatim>\<open>strip_device\<close> skips four characters when \<^verbatim>\<open>os8:\<close> stands anywhere in the name.
\<close>

fun strstr_p :: "string \<Rightarrow> string \<Rightarrow> bool" where
  "strstr_p [] needle = (needle = [])"
| "strstr_p (c # cs) needle = (take (length needle) (c # cs) = needle \<or> strstr_p cs needle)"

definition strip_device :: "string \<Rightarrow> string" where
  "strip_device filename = (if strstr_p filename ''os8:'' then drop 4 filename else filename)"

section \<open>Lookup\<close>

text \<open>
  \<^verbatim>\<open>lookup\<close> walks on from the cursor to the first present entry of non-zero length whose
  name matches; it gives the entry, if any, and the cursor for the next call.
\<close>

primrec lookup_loop ::
  "nat \<Rightarrow> directory \<Rightarrow> pattern \<Rightarrow> cursor \<Rightarrow> (fault + entry option \<times> cursor) option" where
  "lookup_loop 0 d pat c = None"
| "lookup_loop (Suc n) d pat c =
     bind_o (valid_entry n d c) (\<lambda>(ok, c1).
       if \<not> ok then Some (Inr (None, c1))
       else lift_f (get_entry d c1 blank_entry) (\<lambda>(c2, local_entry).
              if \<not> empty_file local_entry \<and> e_length local_entry \<noteq> 0 \<and>
                 pattern_match_p (name local_entry) pat
              then Some (Inr (Some local_entry, c2))
              else lookup_loop n d pat c2))"

definition lookup ::
  "nat \<Rightarrow> string \<Rightarrow> directory \<Rightarrow> cursor \<Rightarrow> (fault + entry option \<times> cursor) option" where
  "lookup fuel filename d c =
     lift_f (build_pattern (strip_device filename)) (\<lambda>pat. lookup_loop fuel d pat c)"

section \<open>Entering a file\<close>

text \<open>
  The part of \<^verbatim>\<open>enter\<close> behind its loop: room is made at the empty file, the new entry
  is written in front of it, the empty file is written back with what is left of its
  length, and the directory is consolidated. \<open>len\<close> is the \<^verbatim>\<open>const int length\<close>. A
  failed \<^verbatim>\<open>assert\<close> is a fault.
\<close>

definition enter_write ::
  "nat \<Rightarrow> string \<Rightarrow> int \<Rightarrow> directory \<Rightarrow> entry \<Rightarrow> nat \<Rightarrow> nat \<Rightarrow> (fault + bool \<times> directory) option" where
  "enter_write fuel filename len d1 entry1 new_entry_length unused_ptr =
     (case e_dir_block entry1 of
        None \<Rightarrow> Some (Inl NullPointer)
      | Some eb \<Rightarrow>
          lift_f (fix_segment_up d1 entry1 new_entry_length unused_ptr) (\<lambda>d2.
          lift_f (build_sixbit filename) (\<lambda>nm.
            let d3 = d2[eb := bump_number_files (d2 ! eb) 1];
                cnt = (word_of_int (negate (additional_words (d3 ! eb))) :: pdp8_word);
                k = min 10 (unat cnt);
                entry2 = entry1\<lparr>empty_file := False, name := nm, additional_count := cnt,
                           e_additional_words :=
                             replicate k 0 @ drop k (e_additional_words entry1),
                           e_length := word_of_int len\<rparr>
            in lift_f (put_entry d3 entry2) (\<lambda>d4.
               lift_f (restore_cursor (init_cursor d4) entry2) (\<lambda>c0.
               lift_f (advance_cursor d4 c0 entry2) (\<lambda>c1.
               lift_f (peek_entry d4 c1 entry2) (\<lambda>entry3.
                 if \<not> empty_file entry3 then Some (Inl AssertionFailed)
                 else if \<not> uint (e_length entry3) \<ge> len then Some (Inl AssertionFailed)
                 else
                   lift_f (put_entry d4
                             (entry3\<lparr>e_length := word_of_int (uint (e_length entry3) - len)\<rparr>))
                     (\<lambda>d5. bind_o (consolidate fuel d5) (\<lambda>d6. Some (Inr (True, d6)))))))))))"

text \<open>
  \<^verbatim>\<open>enter\<close>: the loop that makes room in the segment of the entry, the \<^verbatim>\<open>assert\<close> of
  \<^verbatim>\<open>validate_directory\<close>, and the writing. The result is the returned flag and the
  directory.
\<close>

definition enter ::
  "nat \<Rightarrow> string \<Rightarrow> int \<Rightarrow> directory \<Rightarrow> entry \<Rightarrow> (fault + bool \<times> directory) option" where
  "enter fuel filename len d entry =
     (case e_dir_block entry of
        None \<Rightarrow> Some (Inl NullPointer)
      | Some eb0 \<Rightarrow>
         (let new_entry_length = file_entry_length (d ! eb0);
              min_free_length = new_entry_length + empty_entry_length
          in bind_o (enter_loop fuel d min_free_length entry) (\<lambda>(d1, r).
               case r of
                 None \<Rightarrow> Some (Inr (False, d1))
               | Some (entry1, unused_ptr) \<Rightarrow>
                  (case validate_directory fuel d1 of
                     None \<Rightarrow> None
                   | Some v \<Rightarrow>
                       if \<not> v then Some (Inl AssertionFailed)
                       else enter_write fuel filename len d1 entry1 new_entry_length unused_ptr))))"

text \<open>
  \<^verbatim>\<open>allocate_os8_file\<close> deletes the first file of the name, if any, and looks for an
  empty file; \<^verbatim>\<open>enter_os8_file\<close> enters the file and consolidates once more.
\<close>

definition allocate_os8_file ::
  "nat \<Rightarrow> string \<Rightarrow> nat \<Rightarrow> directory \<Rightarrow> entry \<Rightarrow> (fault + bool \<times> entry \<times> directory) option" where
  "allocate_os8_file fuel filename sz d entry =
     bind_o (lookup fuel filename d (init_cursor d)) (\<lambda>(found, c).
       lift_f (case found of
                 None \<Rightarrow> Inr (d, blank_entry)
               | Some e \<Rightarrow> delete_entry d e) (\<lambda>(d1, exclude_entry).
         bind_o (get_empty_entry fuel d1 exclude_entry entry sz) (\<lambda>(ok, best).
           Some (Inr (ok, best, d1)))))"

definition enter_os8_file ::
  "nat \<Rightarrow> string \<Rightarrow> nat \<Rightarrow> directory \<Rightarrow> entry \<Rightarrow> (fault + bool \<times> directory) option" where
  "enter_os8_file fuel filename sz d entry =
     bind_o (enter fuel filename (int sz) d entry) (\<lambda>(ok, d1).
       if ok then bind_o (consolidate fuel d1) (\<lambda>d2. Some (Inr (True, d2)))
       else Some (Inr (False, d1)))"

section \<open>Block devices\<close>

text \<open>
  The image file is its bytes. \<^verbatim>\<open>pwrite\<close> at an offset beyond the end fills the gap with
  zero bytes; \<^verbatim>\<open>pread\<close> gives the bytes there are, and the readers refuse a short
  count. The host calls themselves are taken to succeed. The readers and writers give
  \<open>None\<close> for the source's \<^verbatim>\<open>false\<close>. \<^verbatim>\<open>RK05_RKB_OFFSET\<close> is 3248 blocks.
\<close>

type_synonym image = "byte list"

definition pwrite :: "image \<Rightarrow> byte list \<Rightarrow> nat \<Rightarrow> image" where
  "pwrite img buf offset =
     (let img1 = img @ replicate (offset + length buf - length img) 0
      in take offset img1 @ buf @ drop (offset + length buf) img1)"

definition pread :: "image \<Rightarrow> nat \<Rightarrow> nat \<Rightarrow> byte list" where
  "pread img count offset = take count (drop offset img)"

definition write_dsk_block :: "image \<Rightarrow> nat \<Rightarrow> pdp8_word list \<Rightarrow> image option" where
  "write_dsk_block img block_no block_buffer =
     map_option (\<lambda>bs. pwrite img bs (block_no * OS8_BLOCK_SIZE * 2)) (write_dsk_bytes block_buffer)"

definition read_dsk_block :: "image \<Rightarrow> nat \<Rightarrow> pdp8_word list option" where
  "read_dsk_block img block_no =
     (let bs = pread img (OS8_BLOCK_SIZE * 2) (block_no * OS8_BLOCK_SIZE * 2)
      in if length bs \<noteq> OS8_BLOCK_SIZE * 2 then None else byte_buffer_to_word_buffer bs)"

definition write_dectape_block :: "image \<Rightarrow> nat \<Rightarrow> pdp8_word list \<Rightarrow> image option" where
  "write_dectape_block img block_no block_buffer =
     (let byte_offset = block_no * DECTAPE_BLOCK_SIZE * 2 in
      case dsk_loop (take 128 block_buffer) of
        None \<Rightarrow> None
      | Some r1 \<Rightarrow>
          (let img1 = pwrite img (r1 @ [0, 0]) byte_offset in
           case dsk_loop (drop 128 block_buffer) of
             None \<Rightarrow> None
           | Some r2 \<Rightarrow> Some (pwrite img1 (r2 @ [0, 0]) (byte_offset + DECTAPE_BLOCK_SIZE))))"

definition read_dectape_block :: "image \<Rightarrow> nat \<Rightarrow> pdp8_word list option" where
  "read_dectape_block img block_no =
     (let byte_offset = block_no * DECTAPE_BLOCK_SIZE * 2;
          b1 = pread img OS8_BLOCK_SIZE byte_offset;
          b2 = pread img OS8_BLOCK_SIZE (byte_offset + DECTAPE_BLOCK_SIZE)
      in if length b1 \<noteq> OS8_BLOCK_SIZE \<or> length b2 \<noteq> OS8_BLOCK_SIZE then None
         else byte_buffer_to_word_buffer (b1 @ b2))"

definition write_rka_block :: "image \<Rightarrow> nat \<Rightarrow> pdp8_word list \<Rightarrow> image option" where
  "write_rka_block img block_no block_buffer =
     map_option (\<lambda>bs. pwrite img bs (block_no * RK05_BLOCK_SIZE)) (write_rka_bytes block_buffer)"

definition read_rka_block :: "image \<Rightarrow> nat \<Rightarrow> pdp8_word list option" where
  "read_rka_block img block_no =
     (let bs = pread img RK05_BLOCK_SIZE (block_no * RK05_BLOCK_SIZE)
      in if length bs \<noteq> RK05_BLOCK_SIZE then None else read_rka_bytes bs)"

definition write_rkb_block :: "image \<Rightarrow> nat \<Rightarrow> pdp8_word list \<Rightarrow> image option" where
  "write_rkb_block img block_no block_buffer = write_rka_block img (block_no + 3248) block_buffer"

definition read_rkb_block :: "image \<Rightarrow> nat \<Rightarrow> pdp8_word list option" where
  "read_rkb_block img block_no = read_rka_block img (block_no + 3248)"

section \<open>Binary copy\<close>

text \<open>
  \<^verbatim>\<open>fread(block, 2, OS8_BLOCK_SIZE, input)\<close> on a little-endian host: the words of the
  next 512 bytes, low byte first. The count it returns is the number of whole words; a
  last single byte is read from the stream but is not counted, and the loop of
  \<^verbatim>\<open>stream_host_image_file\<close> then fills the block with zero words from the count on.
\<close>

fun le_words :: "byte list \<Rightarrow> pdp8_word list" where
  "le_words (b0 # b1 # bs) = ((ucast b0 :: pdp8_word) OR push_bit 8 (ucast b1)) # le_words bs"
| "le_words [b] = []"
| "le_words [] = []"

definition fread_block :: "byte list \<Rightarrow> nat \<times> pdp8_word list" where
  "fread_block input =
     (let ws = le_words (take (OS8_BLOCK_SIZE * 2) input)
      in (length ws, ws @ replicate (OS8_BLOCK_SIZE - length ws) 0))"

text \<open>
  The writing loop of \<^verbatim>\<open>stream_host_image_file\<close>: the flag is false when the empty file
  is too short or a block cannot be written; the count is \<^verbatim>\<open>block_no\<close>.
\<close>

function stream_blocks ::
  "(image \<Rightarrow> nat \<Rightarrow> pdp8_word list \<Rightarrow> image option) \<Rightarrow> entry \<Rightarrow> byte list \<Rightarrow> image \<Rightarrow> nat
     \<Rightarrow> bool \<times> image \<times> nat" where
  "stream_blocks write_block entry input img block_no =
     (if fst (fread_block input) > 0 then
        (if block_no \<ge> unat (e_length entry) then (False, img, block_no)
         else (case write_block img (unat (file_block entry) + block_no) (snd (fread_block input)) of
                 None \<Rightarrow> (False, img, block_no)
               | Some img' \<Rightarrow>
                   stream_blocks write_block entry (drop (OS8_BLOCK_SIZE * 2) input) img'
                     (block_no + 1)))
      else (True, img, block_no))"
  by pat_completeness auto
termination
proof (relation "measure (\<lambda>(write_block, entry, input, img, block_no). length input)")
  show "wf (measure (\<lambda>(write_block, entry, input, img, block_no). length input))"
    by simp
next
  fix write_block :: "image \<Rightarrow> nat \<Rightarrow> pdp8_word list \<Rightarrow> image option"
    and entry :: entry and input :: "byte list" and img img' :: image and block_no :: nat
  assume "0 < fst (fread_block input)"
  then have "input \<noteq> []"
    by (auto simp: fread_block_def)
  then show "((write_block, entry, drop (OS8_BLOCK_SIZE * 2) input, img', block_no + 1),
              (write_block, entry, input, img, block_no))
             \<in> measure (\<lambda>(write_block, entry, input, img, block_no). length input)"
    by (simp add: OS8_BLOCK_SIZE_def)
qed

declare stream_blocks.simps [simp del]

text \<open>
  \<^verbatim>\<open>stream_host_image_file\<close>: \<open>sz\<close> is the \<^verbatim>\<open>unsigned size\<close> the caller took from the
  host file. The result is the returned flag, the directory and the image.
\<close>

definition stream_host_image_file ::
  "nat \<Rightarrow> byte list \<Rightarrow> (image \<Rightarrow> nat \<Rightarrow> pdp8_word list \<Rightarrow> image option) \<Rightarrow> directory \<Rightarrow> string
     \<Rightarrow> nat \<Rightarrow> image \<Rightarrow> (fault + bool \<times> directory \<times> image) option" where
  "stream_host_image_file fuel input write_block d outputname sz img =
     (let output_size = ((sz + (OS8_BLOCK_SIZE - 1) * 2) mod 2 ^ 32) div (OS8_BLOCK_SIZE * 2)
      in bind_o (allocate_os8_file fuel outputname output_size d blank_entry) (\<lambda>(ok, entry, d1).
           if \<not> ok then Some (Inr (False, d1, img))
           else
             (let (ok2, img1, block_no) = stream_blocks write_block entry input img 0
              in if \<not> ok2 then Some (Inr (False, d1, img1))
                 else bind_o (enter_os8_file fuel outputname block_no d1 entry) (\<lambda>(ok3, d2).
                        Some (Inr (ok3, d2, img1))))))"

text \<open>
  \<^verbatim>\<open>stream_os8_image_file\<close> writes the blocks of the entry to the host file, the words
  low byte first; \<open>None\<close> is the source's \<^verbatim>\<open>false\<close>. The loop variable is a
  \<^verbatim>\<open>pdp8_word_t\<close>: the model covers the entries whose last block number is below
  \<open>2 ^ 16\<close>, where it does not wrap.
\<close>

fun words_bytes :: "pdp8_word list \<Rightarrow> byte list" where
  "words_bytes [] = []"
| "words_bytes (w # ws) = ucast w # ucast (drop_bit 8 w) # words_bytes ws"

fun stream_out ::
  "(image \<Rightarrow> nat \<Rightarrow> pdp8_word list option) \<Rightarrow> image \<Rightarrow> nat \<Rightarrow> nat \<Rightarrow> byte list option" where
  "stream_out read_block img block_no 0 = Some []"
| "stream_out read_block img block_no (Suc k) =
     (case read_block img block_no of
        None \<Rightarrow> None
      | Some blk \<Rightarrow>
          map_option (\<lambda>r. words_bytes blk @ r) (stream_out read_block img (Suc block_no) k))"

definition stream_os8_image_file ::
  "entry \<Rightarrow> (image \<Rightarrow> nat \<Rightarrow> pdp8_word list option) \<Rightarrow> image \<Rightarrow> byte list option" where
  "stream_os8_image_file entry read_block img =
     (if unat (file_block entry) + unat (e_length entry) \<ge> 2 ^ 16 then None
      else stream_out read_block img (unat (file_block entry)) (unat (e_length entry)))"

text \<open>
  Copy to the image and back, as \<^verbatim>\<open>copy_host_files\<close> and \<^verbatim>\<open>copy_os8_files\<close> do for a
  binary file: the file is written under the name, looked up again from the start of
  the directory, and read. The result is \<open>None\<close> when a step reports failure.
\<close>

definition copy_round_trip ::
  "nat \<Rightarrow> (image \<Rightarrow> nat \<Rightarrow> pdp8_word list option) \<Rightarrow> (image \<Rightarrow> nat \<Rightarrow> pdp8_word list \<Rightarrow> image option)
     \<Rightarrow> directory \<Rightarrow> image \<Rightarrow> string \<Rightarrow> byte list \<Rightarrow> (fault + byte list option) option" where
  "copy_round_trip fuel read_block write_block d img outputname input =
     bind_o (stream_host_image_file fuel input write_block d outputname (length input) img)
       (\<lambda>(ok, d', img').
          if \<not> ok then Some (Inr None)
          else bind_o (lookup fuel outputname d' (init_cursor d')) (\<lambda>(found, c).
                 case found of
                   None \<Rightarrow> Some (Inr None)
                 | Some e \<Rightarrow> Some (Inr (stream_os8_image_file e read_block img'))))"

section \<open>Text copy from the host\<close>

text \<open>
  \<^verbatim>\<open>put_os8_char\<close> keeps the count of its calls and two words in static variables, and
  writes the two words to the temporary file at every third call. The model passes the
  statics and the words written so far. The result of \<^verbatim>\<open>fwrite\<close> is taken as success.
  \<^verbatim>\<open>0360 = 0xF0\<close>, \<^verbatim>\<open>0215 = 0x8D\<close>, \<^verbatim>\<open>0232 = 0x9A\<close>, \<^verbatim>\<open>0200 = 0x80\<close>.
\<close>

record put_statics =
  ps_i :: nat
  ps_w0 :: pdp8_word
  ps_w1 :: pdp8_word

definition put_os8_char ::
  "put_statics \<times> pdp8_word list \<Rightarrow> pdp8_word \<Rightarrow> put_statics \<times> pdp8_word list" where
  "put_os8_char st ch =
     (let (s, t) = st in
      if ps_i s mod 3 = 0 then (s\<lparr>ps_w0 := ch, ps_i := ps_i s + 1\<rparr>, t)
      else if ps_i s mod 3 = 1 then (s\<lparr>ps_w1 := ch, ps_i := ps_i s + 1\<rparr>, t)
      else (let w0 = ps_w0 s OR push_bit 4 (ch AND 0xF0);
                w1 = ps_w1 s OR push_bit 8 (ch AND 15)
            in (s\<lparr>ps_w0 := w0, ps_w1 := w1, ps_i := ps_i s + 1\<rparr>, t @ [w0, w1])))"

text \<open>
  The character \<^verbatim>\<open>c | 0200\<close> handed to \<^verbatim>\<open>put_os8_char\<close>. \<^verbatim>\<open>c\<close> is a \<^verbatim>\<open>char\<close>, taken
  as signed: a byte from 0x80 on is a negative \<^verbatim>\<open>int\<close> and becomes a word with its high
  byte set.
\<close>

definition mark :: "byte \<Rightarrow> pdp8_word" where
  "mark c = (if c < 0x80 then ucast c OR 0x80 else 0xFF00 OR ucast c)"

text \<open>
  The reading loop of \<^verbatim>\<open>stream_host_text_file\<close>. It stops at the end of the input, at a
  byte 0xFF (which the signed \<^verbatim>\<open>char c\<close> makes equal to \<^verbatim>\<open>EOF\<close>), and after a
  control-Z. \<^verbatim>\<open>first_lf\<close> is set to true at the head of every iteration, so the test of
  a line feed never sees it false. \<^verbatim>\<open>ctrl_z_seen\<close> is not initialised in the source:
  its first value is a parameter.
\<close>

fun text_loop ::
  "bool \<Rightarrow> byte list \<Rightarrow> put_statics \<times> pdp8_word list \<Rightarrow> bool \<times> put_statics \<times> pdp8_word list" where
  "text_loop ctrl_z_seen [] st = (ctrl_z_seen, st)"
| "text_loop ctrl_z_seen (c # cs) st =
     (if c = 0xFF \<or> ctrl_z_seen then (ctrl_z_seen, st)
      else
        (let st1 = (if c = 0x0A then put_os8_char st 0x8D else st);
             st2 = (if c \<noteq> 0 then put_os8_char st1 (mark c) else st1)
         in text_loop (c = 0x1A) cs st2))"

text \<open>
  The words of the temporary file that \<^verbatim>\<open>stream_host_text_file\<close> hands to
  \<^verbatim>\<open>stream_host_image_file\<close>, and the statics it leaves.
\<close>

definition stream_host_text_words ::
  "bool \<Rightarrow> put_statics \<Rightarrow> byte list \<Rightarrow> put_statics \<times> pdp8_word list" where
  "stream_host_text_words ctrl_z_seen0 statics input =
     (let (ctrl_z_seen, st) = text_loop ctrl_z_seen0 input (statics, []);
          st1 = (if \<not> ctrl_z_seen then put_os8_char st 0x9A else st)
      in put_os8_char (put_os8_char st1 0) 0)"

text \<open>
  The encoding in the words of the specification: the characters to store, and their
  packing, three characters to two words, the last group filled with zero.
  \<open>text_chars\<close> is the rule for a whole input; \<open>upto_ctrl_z\<close> is the input up to and
  including its first control-Z.
\<close>

definition text_chars :: "byte list \<Rightarrow> pdp8_word list" where
  "text_chars input =
     concat (map (\<lambda>c. if c = 0x0A then [0x8D, mark c] else if c = 0 then [] else [mark c]) input)
     @ (if input \<noteq> [] \<and> last input = 0x1A then [] else [0x9A])"

fun pack3 :: "pdp8_word list \<Rightarrow> pdp8_word list" where
  "pack3 (a # b # c # r) =
     (a OR push_bit 4 (c AND 0xF0)) # (b OR push_bit 8 (c AND 15)) # pack3 r"
| "pack3 [a, b] = [a, b]"
| "pack3 [a] = [a, 0]"
| "pack3 [] = []"

fun upto_ctrl_z :: "byte list \<Rightarrow> byte list" where
  "upto_ctrl_z [] = []"
| "upto_ctrl_z (c # cs) = (if c = 0x1A then [c] else c # upto_ctrl_z cs)"

section \<open>Sample directories\<close>

text \<open>
  A directory of one segment with one additional word per entry and three entries: the
  file \<^verbatim>\<open>A\<close> of 2 blocks at word 5, an empty file of 10 blocks at word 11, and the file
  \<^verbatim>\<open>B.TX\<close> of 1 block at word 13. The first free word is 19. The flag word is
  \<^verbatim>\<open>01400 + 17\<close>.
\<close>

definition sample_words :: "pdp8_word list" where
  "sample_words =
     [4093, 7, 0, 785, 4095,
      64, 0, 0, 0, 0, 4094,
      0, 4086,
      128, 0, 0, 1304, 0, 4095] @ replicate 237 0"

definition sample_directory :: directory where
  "sample_directory =
     [\<lparr>dirty = False, data = sample_words\<rparr>,
      zero_block, zero_block, zero_block, zero_block, zero_block]"

definition sample_file_entry :: entry where
  "sample_file_entry =
     \<lparr>empty_file = False, name = [64, 0, 0, 0], e_dir_block = Some 0, e_entry = 5,
      file_block = 7, file_number = 1, e_length = 2,
      e_additional_words = replicate 10 0, additional_count = 1\<rparr>"

definition sample_empty_entry :: entry where
  "sample_empty_entry =
     \<lparr>empty_file = True, name = replicate 4 0, e_dir_block = Some 0, e_entry = 11,
      file_block = 9, file_number = 2, e_length = 10,
      e_additional_words = replicate 10 0, additional_count = 0\<rparr>"

text \<open>The same directory with the flag word \<^verbatim>\<open>01400 + 11\<close>, the word of the empty file.\<close>

definition flag_at_entry_directory :: directory where
  "flag_at_entry_directory =
     [\<lparr>dirty = False, data = sample_words[3 := 779]\<rparr>,
      zero_block, zero_block, zero_block, zero_block, zero_block]"

text \<open>
  A segment with five entries: an empty file of 4 blocks, the file \<^verbatim>\<open>A\<close>, an empty file
  of 4 blocks, the file \<^verbatim>\<open>B\<close>, and an empty file of 7 blocks.
\<close>

definition tie_directory :: directory where
  "tie_directory =
     [\<lparr>dirty = False,
       data = [4091, 7, 0, 0, 4095,
               0, 4092,
               64, 0, 0, 0, 0, 4095,
               0, 4092,
               128, 0, 0, 0, 0, 4095,
               0, 4089] @ replicate 233 0\<rparr>,
      zero_block, zero_block, zero_block, zero_block, zero_block]"

text \<open>A segment whose only entry is an empty file of length zero.\<close>

definition zero_length_directory :: directory where
  "zero_length_directory =
     [\<lparr>dirty = False, data = [4095, 7, 0, 0, 4095, 0, 0] @ replicate 249 0\<rparr>,
      zero_block, zero_block, zero_block, zero_block, zero_block]"

text \<open>
  The directory that \<^verbatim>\<open>enter\<close> hands to \<^verbatim>\<open>consolidate\<close> after a file of one block has
  been written into an empty file of one block that stood before the files \<^verbatim>\<open>B.TX\<close> and
  \<^verbatim>\<open>C\<close>: the file \<^verbatim>\<open>D\<close>, the empty file with its length now zero, \<^verbatim>\<open>B.TX\<close>, \<^verbatim>\<open>C\<close>,
  and the empty file of 1464 blocks that ends the DECtape.
\<close>

definition exact_fit_directory :: directory where
  "exact_fit_directory =
     [\<lparr>dirty = True,
       data = [4091, 7, 0, 0, 4095,
               256, 0, 0, 0, 0, 4095,
               0, 0,
               128, 0, 0, 1304, 0, 4095,
               192, 0, 0, 0, 0, 4095,
               0, 2632] @ replicate 229 0\<rparr>,
      zero_block, zero_block, zero_block, zero_block, zero_block]"

text \<open>
  The same directory after \<^verbatim>\<open>consolidate\<close>: three entries are left of the five.
\<close>

definition exact_fit_consolidated :: directory where
  "exact_fit_consolidated =
     [\<lparr>dirty = True,
       data = [4093, 7, 0, 0, 4095,
               256, 0, 0, 0, 0, 4095,
               128, 0, 0, 1303, 192, 0,
               0, 0,
               0, 4095, 0, 2632] @ replicate 233 0\<rparr>,
      zero_block, zero_block, zero_block, zero_block, zero_block]"

text \<open>
  A freshly created DECtape directory (one empty file of 1467 blocks from block 7 on),
  and an image of ten blocks of zero bytes in the two-byte format.
\<close>

definition fresh_directory :: directory where
  "fresh_directory =
     [\<lparr>dirty = False, data = [4095, 7, 0, 0, 4095, 0, 2629] @ replicate 249 0\<rparr>,
      zero_block, zero_block, zero_block, zero_block, zero_block]"

definition small_image :: image where
  "small_image = replicate (10 * 512) 0"


section \<open>Properties of the word codec\<close>

lemma bit16: "bit (w::pdp8_word) n \<Longrightarrow> n < 16"
  using bit_imp_le_length[of w n] by simp

lemma bit8: "bit (b::byte) n \<Longrightarrow> n < 8"
  using bit_imp_le_length[of b n] by simp

lemma F000: "(0xF000 :: pdp8_word) = push_bit 12 (mask 4)"
  by (simp add: mask_eq_exp_minus_1)

lemma FF: "(0xFF :: pdp8_word) = mask 8"
  by (simp add: mask_eq_exp_minus_1)

lemma F15: "(15 :: pdp8_word) = mask 4"
  by (simp add: mask_eq_exp_minus_1)

lemma B15: "(15 :: byte) = mask 4"
  by (simp add: mask_eq_exp_minus_1)

lemma hi_bits: "(w::pdp8_word) AND 0xF000 = 0 \<longleftrightarrow> (\<forall>n\<ge>12. \<not> bit w n)"
proof
  assume a: "w AND 0xF000 = 0"
  show "\<forall>n\<ge>12. \<not> bit w n"
  proof (intro allI impI notI)
    fix n assume n: "12 \<le> (n::nat)" and b: "bit w n"
    from b have "n < 16" by (rule bit16)
    with n b have "bit (w AND push_bit 12 (mask 4)) n"
      by (simp add: bit_simps) arith
    with a show False by (simp add: F000)
  qed
next
  assume "\<forall>n\<ge>12. \<not> bit w n"
  then show "w AND 0xF000 = 0"
    unfolding F000 by (intro bit_word_eqI) (auto simp: bit_simps)
qed

lemma hi_bitsD: "(w::pdp8_word) AND 0xF000 = 0 \<Longrightarrow> bit w n \<Longrightarrow> n < 12"
  by (meson hi_bits not_le)

lemma lt4096: "(w::pdp8_word) < 4096 \<longleftrightarrow> w AND 0xF000 = 0"
proof -
  have "w < 4096 \<longleftrightarrow> w AND mask 12 = w"
    using mask_eq_iff_w2p[of 12 w] by (simp add: word_size)
  also have "\<dots> \<longleftrightarrow> (\<forall>n\<ge>12. \<not> bit w n)"
    by (auto simp: bit_eq_iff bit_simps dest: bit16) (meson bit16 not_le)+
  finally show ?thesis by (simp add: hi_bits)
qed

lemma pair_join: "(w::pdp8_word) AND 0xF000 = 0 \<Longrightarrow>
  (ucast ((ucast (w AND 0xFF)) :: byte) :: pdp8_word) OR push_bit 8 (ucast ((ucast (drop_bit 8 w)) :: byte)) = w"
  unfolding FF by (rule bit_word_eqI) (auto simp: bit_simps hi_bits)

lemma pair_ok: "(b1 :: byte) < 16 \<Longrightarrow> ((ucast (b0::byte) :: pdp8_word) OR push_bit 8 (ucast b1)) AND 0xF000 = 0"
proof -
  assume "b1 < 16"
  then have "b1 AND mask 4 = b1"
    using mask_eq_iff_w2p[of 4 b1] by (simp add: word_size)
  then have b: "\<And>n. n \<ge> 4 \<Longrightarrow> \<not> bit b1 n"
    by (metis bit_and_iff bit_mask_iff not_le)
  show ?thesis
    unfolding hi_bits by (auto simp: bit_simps b dest!: bit8)
qed

lemma pair_split:
  "(ucast (((ucast (b0::byte) :: pdp8_word) OR push_bit 8 (ucast (b1::byte))) AND 0xFF) :: byte) = b0"
  "(ucast (drop_bit 8 ((ucast (b0::byte) :: pdp8_word) OR push_bit 8 (ucast (b1::byte)))) :: byte) = b1"
  unfolding FF by (auto intro!: bit_word_eqI simp: bit_simps dest: bit8)

lemma pair_split':
  "(ucast (drop_bit 8 (ucast (b0::byte) :: pdp8_word) OR drop_bit 8 (push_bit 8 (ucast (b1::byte)))) :: byte) = b1"
  by (auto intro!: bit_word_eqI simp: bit_simps dest: bit8)

lemma byte_lt16: "(b::byte) < 16 \<longleftrightarrow> (\<forall>n\<ge>4. \<not> bit b n)"
proof -
  have "b < 16 \<longleftrightarrow> b AND mask 4 = b"
    using mask_eq_iff_w2p[of 4 b] by (simp add: word_size)
  also have "\<dots> \<longleftrightarrow> (\<forall>n\<ge>4. \<not> bit b n)"
    by (auto simp: bit_eq_iff bit_simps dest: bit8) (meson bit8 not_le)+
  finally show ?thesis .
qed

lemma hi_byte: "(w::pdp8_word) AND 0xF000 = 0 \<Longrightarrow> (ucast (drop_bit 8 w) :: byte) < 16"
  unfolding byte_lt16 hi_bits by (auto simp: bit_simps)

lemma dsk_loop_round:
  "list_all (\<lambda>w. w < 4096) ws \<Longrightarrow>
   \<exists>bs. dsk_loop ws = Some bs \<and> length bs = 2 * length ws \<and> two_byte_ok bs \<and>
        word_loop (length ws) bs = Some ws"
proof (induction ws)
  case Nil
  then show ?case by simp
next
  case (Cons w ws)
  then obtain bs where bs: "dsk_loop ws = Some bs" "length bs = 2 * length ws"
     "two_byte_ok bs" "word_loop (length ws) bs = Some ws"
    by auto
  from Cons.prems have w: "w AND 0xF000 = 0" by (simp add: lt4096)
  with bs show ?case
    by (simp add: pair_join hi_byte)
qed

lemma word_loop_round:
  "two_byte_ok bs \<Longrightarrow> length bs = 2 * n \<Longrightarrow>
   \<exists>ws. word_loop n bs = Some ws \<and> length ws = n \<and> list_all (\<lambda>w. w < 4096) ws \<and>
        dsk_loop ws = Some bs"
proof (induction bs arbitrary: n rule: two_byte_ok.induct)
  case (1 b0 b1 bs)
  then obtain m where n: "n = Suc m" by (cases n) auto
  with 1 obtain ws where "word_loop m bs = Some ws" "length ws = m"
    "list_all (\<lambda>w. w < 4096) ws" "dsk_loop ws = Some bs"
    by fastforce
  with 1 n show ?case
    by (simp add: pair_ok pair_split pair_split' lt4096)
next
  case 2
  then show ?case by simp
next
  case (3 b)
  then show ?case by simp
qed

lemma rka_write_round:
  "list_all (\<lambda>w. w < 4096) ws \<Longrightarrow> even (length ws) \<Longrightarrow>
   \<exists>bs. rka_write_loop ws = Some bs \<and> length bs = 3 * (length ws div 2) \<and>
        rka_read_loop (length ws div 2) bs = Some ws"
proof (induction ws rule: rka_write_loop.induct)
  case (1 w1 w2 ws)
  then obtain bs where bs: "rka_write_loop ws = Some bs" "length bs = 3 * (length ws div 2)"
     "rka_read_loop (length ws div 2) bs = Some ws"
    by (auto simp: lt4096)
  from "1.prems" have w: "w1 AND 0xF000 = 0" "w2 AND 0xF000 = 0" by (simp_all add: lt4096)
  have a: "push_bit 4 (ucast (ucast (drop_bit 4 w1) :: byte)) OR
           ucast (drop_bit 4 (ucast (push_bit 4 (w1 AND 15) OR drop_bit 8 w2) :: byte)) = w1"
    unfolding F15 by (intro bit_word_eqI)
      (auto simp: bit_simps not_less dest: hi_bitsD[OF w(1)] hi_bitsD[OF w(2)],
       metis le_add_diff_inverse not_less)
  have b: "push_bit 8 (ucast ((ucast (push_bit 4 (w1 AND 15) OR drop_bit 8 w2) :: byte) AND 15)) OR
           ucast (ucast (w2 AND 0xFF) :: byte) = w2"
    unfolding F15 B15 FF by (intro bit_word_eqI)
      (auto simp: bit_simps not_less dest: hi_bitsD[OF w(1)] hi_bitsD[OF w(2)])
  show ?case using w bs a b by simp
next
  case 2
  then show ?case by simp
next
  case (3 w)
  then show ?case by simp
qed

lemma rka_read_round:
  "length bs = 3 * n \<Longrightarrow>
   \<exists>ws. rka_read_loop n bs = Some ws \<and> length ws = 2 * n \<and>
        list_all (\<lambda>w. w < 4096) ws \<and> rka_write_loop ws = Some bs"
proof (induction n bs rule: rka_read_loop.induct)
  case (1 bs)
  then show ?case by simp
next
  case (2 n c1 c2 c3 bs)
  then obtain ws where ws: "rka_read_loop n bs = Some ws" "length ws = 2 * n"
     "list_all (\<lambda>w. w < 4096) ws" "rka_write_loop ws = Some bs"
    by auto
  define w1 where "w1 = (push_bit 4 (ucast c1 :: pdp8_word) OR ucast (drop_bit 4 c2))"
  define w2 where "w2 = (push_bit 8 (ucast (c2 AND 15) :: pdp8_word) OR ucast c3)"
  have h: "w1 AND 0xF000 = 0" "w2 AND 0xF000 = 0"
    unfolding hi_bits w1_def w2_def B15 by (auto simp: bit_simps dest!: bit8)
  have c: "(ucast (drop_bit 4 w1) :: byte) = c1"
          "(ucast (push_bit 4 (w1 AND 15) OR drop_bit 8 w2) :: byte) = c2"
          "(ucast (w2 AND 0xFF) :: byte) = c3"
    unfolding w1_def w2_def B15 F15 FF by (auto intro!: bit_word_eqI simp: bit_simps dest: bit8)
  have "rka_read_loop (Suc n) (c1 # c2 # c3 # bs) = Some (w1 # w2 # ws)"
    using ws by (simp add: w1_def w2_def)
  moreover have "rka_write_loop (w1 # w2 # ws) = Some (c1 # c2 # c3 # bs)"
    using ws h c by simp
  ultimately show ?case using ws h by (simp add: lt4096)
qed simp_all

lemma take_two_byte [simp]: "length (take 256 bs @ take 256 (drop 258 bs)) = 512" if "length bs = 516"
  using that by simp

lemma word_loop_append:
  "word_loop n xs = Some a \<Longrightarrow> length xs = 2 * n \<Longrightarrow> word_loop m ys = Some b \<Longrightarrow>
   word_loop (n + m) (xs @ ys) = Some (a @ b)"
  by (induction n xs arbitrary: a rule: word_loop.induct) (auto split: if_splits simp: Let_def)

lemma two_byte_ok_replicate: "b < 16 \<Longrightarrow> two_byte_ok (replicate (2 * n) b)"
  by (induction n) simp_all

text \<open>
  Claim C5 (codec round trip). For a block of 256 words, each below 4096, writing the block
  and reading the written bytes back gives the block again, under each of the three packings
  (two bytes per word, DECtape records of 129 words, three bytes per two words). For bytes
  that respect the packing (the high byte of every pair below 16 for the two-byte packings;
  any bytes for the three-byte packing), reading and writing back gives the same bytes, but
  for the two ignored bytes that end each DECtape record, which are written as zero.
\<close>

theorem codec_round_trip:
  assumes blk: "length block = OS8_BLOCK_SIZE" "list_all (\<lambda>w. w < 4096) block"
    and b2: "length b2 = 2 * OS8_BLOCK_SIZE" "two_byte_ok b2"
    and bd: "length bd = 2 * DECTAPE_BLOCK_SIZE" "two_byte_ok (take 256 bd)"
            "two_byte_ok (take 256 (drop 258 bd))"
    and b3: "length b3 = RK05_BLOCK_SIZE"
  shows "Option.bind (write_dsk_bytes block) read_dsk_bytes = Some block \<and>
         Option.bind (write_dectape_bytes block) read_dectape_bytes = Some block \<and>
         Option.bind (write_rka_bytes block) read_rka_bytes = Some block \<and>
         Option.bind (read_dsk_bytes b2) write_dsk_bytes = Some b2 \<and>
         Option.bind (read_dectape_bytes bd) write_dectape_bytes = Some (dectape_clean bd) \<and>
         Option.bind (read_rka_bytes b3) write_rka_bytes = Some b3"
proof (intro conjI)
  show "Option.bind (write_dsk_bytes block) read_dsk_bytes = Some block"
    using dsk_loop_round[OF blk(2)] blk(1)
    by (auto simp: write_dsk_bytes_def read_dsk_bytes_def byte_buffer_to_word_buffer_def)
next
  have h1: "list_all (\<lambda>w. w < 4096) (take 128 block)"
    and h2: "list_all (\<lambda>w. w < 4096) (drop 128 block)"
    using blk(2) by (auto simp: list_all_iff dest: in_set_takeD in_set_dropD)
  from dsk_loop_round[OF h1] blk(1) obtain r1 where r1: "dsk_loop (take 128 block) = Some r1"
    "length r1 = 256" "word_loop 128 r1 = Some (take 128 block)"
    by (auto simp: OS8_BLOCK_SIZE_def)
  from dsk_loop_round[OF h2] blk(1) obtain r2 where r2: "dsk_loop (drop 128 block) = Some r2"
    "length r2 = 256" "word_loop 128 r2 = Some (drop 128 block)"
    by (auto simp: OS8_BLOCK_SIZE_def)
  have "word_loop (128 + 128) (r1 @ r2) = Some (take 128 block @ drop 128 block)"
    using r1 r2 by (intro word_loop_append) auto
  then show "Option.bind (write_dectape_bytes block) read_dectape_bytes = Some block"
    using r1 r2
    by (simp add: write_dectape_bytes_def read_dectape_bytes_def byte_buffer_to_word_buffer_def
        OS8_BLOCK_SIZE_def DECTAPE_BLOCK_SIZE_def)
next
  show "Option.bind (write_rka_bytes block) read_rka_bytes = Some block"
    using rka_write_round[OF blk(2)] blk(1)
    by (auto simp: write_rka_bytes_def read_rka_bytes_def OS8_BLOCK_SIZE_def)
next
  show "Option.bind (read_dsk_bytes b2) write_dsk_bytes = Some b2"
    using word_loop_round[OF b2(2) b2(1)]
    by (auto simp: write_dsk_bytes_def read_dsk_bytes_def byte_buffer_to_word_buffer_def)
next
  show "Option.bind (read_rka_bytes b3) write_rka_bytes = Some b3"
    using rka_read_round[of b3 128] b3
    by (auto simp: write_rka_bytes_def read_rka_bytes_def OS8_BLOCK_SIZE_def RK05_BLOCK_SIZE_def)
next
  let ?A = "take 256 bd" and ?B = "take 256 (drop 258 bd)"
  have la: "length ?A = 2 * 128" and lb: "length ?B = 2 * 128"
    using bd(1) by (simp_all add: DECTAPE_BLOCK_SIZE_def)
  from word_loop_round[OF bd(2) la] obtain wa where wa: "word_loop 128 ?A = Some wa"
    "length wa = 128" "dsk_loop wa = Some ?A"
    by auto
  from word_loop_round[OF bd(3) lb] obtain wb where wb: "word_loop 128 ?B = Some wb"
    "length wb = 128" "dsk_loop wb = Some ?B"
    by auto
  have "word_loop (128 + 128) (?A @ ?B) = Some (wa @ wb)"
    using wa(1) la wb(1) by (rule word_loop_append)
  then show "Option.bind (read_dectape_bytes bd) write_dectape_bytes = Some (dectape_clean bd)"
    using wa wb
    by (simp add: write_dectape_bytes_def read_dectape_bytes_def byte_buffer_to_word_buffer_def
        OS8_BLOCK_SIZE_def DECTAPE_BLOCK_SIZE_def dectape_clean_def)
qed

theorem codec_round_trip_witness:
  "Option.bind (write_dsk_bytes (replicate 256 0xABC)) read_dsk_bytes = Some (replicate 256 0xABC) \<and>
   Option.bind (write_dectape_bytes (replicate 256 0xABC)) read_dectape_bytes
     = Some (replicate 256 0xABC) \<and>
   Option.bind (write_rka_bytes (replicate 256 0xABC)) read_rka_bytes = Some (replicate 256 0xABC) \<and>
   Option.bind (read_dsk_bytes (replicate 512 7)) write_dsk_bytes = Some (replicate 512 7) \<and>
   Option.bind (read_dectape_bytes (replicate 516 9)) write_dectape_bytes
     = Some (dectape_clean (replicate 516 9)) \<and>
   Option.bind (read_rka_bytes (replicate 384 0xFF)) write_rka_bytes = Some (replicate 384 0xFF)"
proof -
  have t: "two_byte_ok (replicate 512 (7::byte))" "two_byte_ok (replicate 256 (9::byte))"
    using two_byte_ok_replicate[of 7 256] two_byte_ok_replicate[of 9 128] by simp_all
  show ?thesis
    by (rule codec_round_trip)
       (simp_all add: OS8_BLOCK_SIZE_def DECTAPE_BLOCK_SIZE_def RK05_BLOCK_SIZE_def
          list_all_iff t)
qed


section \<open>Validation of a directory\<close>

text \<open>
  Claim C6 (validation on read) fails on the code. In \<open>bad_flag_directory\<close> the second
  segment of the chain has the flag word 1, which is neither 0 nor in \<^verbatim>\<open>01400..01777\<close>;
  \<^verbatim>\<open>validate_directory\<close> accepts it, and so does \<^verbatim>\<open>read_directory\<close> on a device that holds
  it, because the lower bound is tested on the flag word of the first segment.
\<close>

theorem validate_directory_misses_flag_word:
  "next_segment (bad_flag_directory ! 0) = 2 \<and>
   flag_word (bad_flag_directory ! 1) = 1 \<and>
   validate_directory 6 bad_flag_directory = Some True \<and>
   read_directory 6 bad_flag_reader (replicate 6 zero_block) = Some (True, bad_flag_directory)"
  by code_simp

section \<open>Moving the words of a segment\<close>

lemma shuffle_words_down_nth:
  "dst \<le> src \<Longrightarrow> length ws = OS8_BLOCK_SIZE \<Longrightarrow>
   \<exists>ws'. shuffle_words_down ws src dst (OS8_BLOCK_SIZE - 1) = Inr ws' \<and>
         length ws' = OS8_BLOCK_SIZE \<and>
         (\<forall>k < OS8_BLOCK_SIZE. ws' ! k =
            (if dst \<le> k \<and> k + (src - dst) < OS8_BLOCK_SIZE then ws ! (k + (src - dst)) else ws ! k))"
proof (induction ws src dst "OS8_BLOCK_SIZE - 1" rule: shuffle_words_down.induct)
  case (1 ws src dst)
  show ?case
  proof (cases "src \<le> OS8_BLOCK_SIZE - 1")
    case False
    then show ?thesis
      by (subst shuffle_words_down.simps) (auto simp: "1.prems" OS8_BLOCK_SIZE_def)
  next
    case True
    then have b: "src < OS8_BLOCK_SIZE" "dst < OS8_BLOCK_SIZE"
      using "1.prems" by (auto simp: OS8_BLOCK_SIZE_def)
    let ?ws1 = "ws[dst := ws ! src]"
    from "1.hyps"[OF True] b "1.prems"
    obtain ws' where r: "shuffle_words_down ?ws1 (src + 1) (dst + 1) (OS8_BLOCK_SIZE - 1) = Inr ws'"
      "length ws' = OS8_BLOCK_SIZE"
      "\<forall>k < OS8_BLOCK_SIZE. ws' ! k =
         (if dst + 1 \<le> k \<and> k + (src + 1 - (dst + 1)) < OS8_BLOCK_SIZE
          then ?ws1 ! (k + (src + 1 - (dst + 1))) else ?ws1 ! k)"
      by auto
    have "shuffle_words_down ws src dst (OS8_BLOCK_SIZE - 1) = Inr ws'"
      using True b r(1) by (subst shuffle_words_down.simps) simp
    moreover have "\<forall>k < OS8_BLOCK_SIZE. ws' ! k =
            (if dst \<le> k \<and> k + (src - dst) < OS8_BLOCK_SIZE then ws ! (k + (src - dst)) else ws ! k)"
    proof (intro allI impI)
      fix k assume k: "k < OS8_BLOCK_SIZE"
      show "ws' ! k = (if dst \<le> k \<and> k + (src - dst) < OS8_BLOCK_SIZE then ws ! (k + (src - dst)) else ws ! k)"
        using r(3)[rule_format, OF k] "1.prems" b k
        by (auto simp: nth_list_update)
    qed
    ultimately show ?thesis using r(2) by blast
  qed
qed

lemma shuffle_words_up_nth:
  "src + off < OS8_BLOCK_SIZE \<Longrightarrow> length ws = OS8_BLOCK_SIZE \<Longrightarrow>
   \<exists>ws'. shuffle_words_up ws src (src + off) lst = Inr ws' \<and>
         length ws' = OS8_BLOCK_SIZE \<and>
         (\<forall>k < OS8_BLOCK_SIZE. ws' ! k =
            (if lst + off \<le> k \<and> k \<le> src + off then ws ! (k - off) else ws ! k))"
proof (induction src arbitrary: ws)
  case 0
  show ?case
    using 0 by (subst shuffle_words_up.simps) (auto simp: nth_list_update)
next
  case (Suc n)
  show ?case
  proof (cases "lst \<le> Suc n")
    case False
    then show ?thesis
      using Suc.prems by (subst shuffle_words_up.simps) auto
  next
    case True
    let ?ws1 = "ws[Suc n + off := ws ! Suc n]"
    have "n + off < OS8_BLOCK_SIZE" "length ?ws1 = OS8_BLOCK_SIZE"
      using Suc.prems by auto
    from Suc.IH[OF this]
    obtain ws' where r: "shuffle_words_up ?ws1 n (n + off) lst = Inr ws'"
      "length ws' = OS8_BLOCK_SIZE"
      "\<forall>k < OS8_BLOCK_SIZE. ws' ! k =
         (if lst + off \<le> k \<and> k \<le> n + off then ?ws1 ! (k - off) else ?ws1 ! k)"
      by auto
    have "shuffle_words_up ws (Suc n) (Suc n + off) lst = Inr ws'"
      using True Suc.prems r(1) by (subst shuffle_words_up.simps) simp
    moreover have "\<forall>k < OS8_BLOCK_SIZE. ws' ! k =
          (if lst + off \<le> k \<and> k \<le> Suc n + off then ws ! (k - off) else ws ! k)"
    proof (intro allI impI)
      fix k assume k: "k < OS8_BLOCK_SIZE"
      show "ws' ! k = (if lst + off \<le> k \<and> k \<le> Suc n + off then ws ! (k - off) else ws ! k)"
        using r(3)[rule_format, OF k] Suc.prems k True
        by (auto simp: nth_list_update)
    qed
    ultimately show ?thesis using r(2) by blast
  qed
qed

lemma negate_range: "w \<le> 4096 \<Longrightarrow> 0 \<le> negate w \<and> negate w < 4096"
  by (auto simp: negate_def Let_def word_le_def)

lemma negate_12bit: "w < 4096 \<Longrightarrow> negate w = (4096 - uint w) mod 4096"
  by (auto simp: negate_def Let_def word_less_def)

lemma negate_nz:
  assumes "0 < uint w" "uint w < 4096"
  shows "negate w = 4096 - uint w"
proof -
  have "0 \<le> 4096 - uint w" using assms by simp
  moreover have "(4096 - uint w) mod 4096 = 4096 - uint w"
    using assms by (intro mod_pos_pos_trivial) simp_all
  ultimately show ?thesis unfolding negate_def Let_def by (simp only: if_True)
qed

lemma negate_0: "negate 0 = 0"
  by (simp add: negate_def)

lemma negate_negate:
  assumes "w < 4096"
  shows "(word_of_int (negate (word_of_int (negate w) :: pdp8_word)) :: pdp8_word) = w"
proof (cases "w = 0")
  case True
  then show ?thesis by (simp add: negate_0)
next
  case False
  then have nz: "0 < uint w"
    by (metis uint_0_iff uint_ge_0 order_le_less)
  from assms have lt: "uint w < 4096" by (simp add: word_less_def)
  have n1: "negate w = 4096 - uint w" using nz lt by (rule negate_nz)
  have u: "uint (word_of_int (4096 - uint w) :: pdp8_word) = 4096 - uint w"
    by (subst uint_word_of_int_eq, rule take_bit_int_eq_self) (use nz lt in simp_all)
  define v :: pdp8_word where "v = word_of_int (4096 - uint w)"
  have uv: "uint v = 4096 - uint w" unfolding v_def by (rule u)
  have "negate v = 4096 - uint v"
    by (rule negate_nz) (use nz lt uv in linarith)+
  then have "negate v = uint w" using uv by linarith
  then have "(word_of_int (negate v) :: pdp8_word) = w" by simp
  then show ?thesis unfolding n1 v_def .
qed

text \<open>
  Claim C7 (flag word on insertion), as the code has it. When \<^verbatim>\<open>enter\<close> makes room with
  \<^verbatim>\<open>fix_segment_up\<close> for an entry at a word of the entries area, and the shifted words stay
  inside the segment: a flag word that is not 0 and refers to a word strictly beyond the
  insertion point grows by the shift, and is cleared to 0 when the sum would exceed
  \<^verbatim>\<open>01777\<close>; a flag word that is 0, or refers to the insertion point or to a word before
  it, is unchanged.
\<close>

theorem fix_segment_up_flag_word:
  assumes shape: "dir_shape d"
    and blk: "e_dir_block e = Some i" "i < DIR_LENGTH"
    and ent: "file_entries \<le> e_entry e"
    and room: "first_byte + offset < OS8_BLOCK_SIZE"
  shows "\<exists>d'. fix_segment_up d e offset first_byte = Inr d' \<and>
          (let fw = flag_word (d ! i); fw' = flag_word (d' ! i) in
           (fw \<noteq> 0 \<and> int (e_entry e) < uint fw - 768 \<and> unat fw + offset \<le> 1023
              \<longrightarrow> fw' = fw + word_of_nat offset) \<and>
           (fw \<noteq> 0 \<and> int (e_entry e) < uint fw - 768 \<and> unat fw + offset > 1023
              \<longrightarrow> fw' = 0) \<and>
           (fw = 0 \<or> uint fw - 768 \<le> int (e_entry e) \<longrightarrow> fw' = fw))"
proof -
  let ?ws = "data (d ! i)"
  have len: "length ?ws = OS8_BLOCK_SIZE" and i: "i < length d"
    using shape blk(2) by (auto simp: dir_shape_def list_all_length)
  from shuffle_words_up_nth[OF room len, of "e_entry e"]
  obtain ws' where r: "shuffle_words_up ?ws first_byte (first_byte + offset) (e_entry e) = Inr ws'"
    "length ws' = OS8_BLOCK_SIZE"
    "\<forall>k < OS8_BLOCK_SIZE. ws' ! k =
       (if e_entry e + offset \<le> k \<and> k \<le> first_byte + offset then ?ws ! (k - offset) else ?ws ! k)"
    by auto
  have f3: "ws' ! 3 = ?ws ! 3"
    using r(3)[rule_format, of 3] ent by (simp add: OS8_BLOCK_SIZE_def file_entries_def)
  have small: "(unat (?ws ! 3) + offset) mod 2 ^ 32 = unat (?ws ! 3) + offset"
  proof -
    have "unat (?ws ! 3) < 2 ^ 16" using unsigned_less[of "?ws ! 3"] by simp
    moreover have "offset < 256" using room by (simp add: OS8_BLOCK_SIZE_def)
    ultimately show ?thesis by simp
  qed
  show ?thesis
    using r(1,2) i f3 small
    by (auto simp: fix_segment_up_def blk bind_f_def Let_def flag_word_def OS8_BLOCK_SIZE_def)
qed

section \<open>Deleting an entry\<close>

lemma peek_entry_present:
  assumes "peek_entry d c e0 = Inr e" "\<not> empty_file e"
  defines "cnt \<equiv> (word_of_int (negate (additional_words (d ! cur_dir_block c))) :: pdp8_word)"
  shows "e_dir_block e = Some (cur_dir_block c)" "e_entry e = cur_entry c"
    "cur_entry c + 4 + unat cnt < OS8_BLOCK_SIZE"
    "e_length e = word_of_int (negate (data (d ! cur_dir_block c) ! (cur_entry c + 4 + unat cnt)))"
    "file_number e = cur_file_number c" "file_block e = cur_next_block c"
    "data (d ! cur_dir_block c) ! cur_entry c \<noteq> 0"
  using assms
  by (auto simp: peek_entry_def bind_f_def rd_def Let_def split: if_splits sum.splits)

lemma peek_entry_empty:
  assumes "peek_entry d c e0 = Inr e" "empty_file e"
  shows "e_dir_block e = Some (cur_dir_block c)" "e_entry e = cur_entry c"
    "cur_entry c + 1 < OS8_BLOCK_SIZE"
    "e_length e = word_of_int (negate (data (d ! cur_dir_block c) ! (cur_entry c + 1)))"
    "file_number e = cur_file_number c" "file_block e = cur_next_block c"
    "data (d ! cur_dir_block c) ! cur_entry c = 0"
  using assms
  by (auto simp: peek_entry_def bind_f_def rd_def Let_def split: if_splits sum.splits)

lemma file_entry_length_12bit:
  assumes "additional_words b < 4096"
  shows "file_entry_length b = 5 + unat (word_of_int (negate (additional_words b)) :: pdp8_word)"
    and "file_entry_length b \<ge> 5"
proof -
  have r: "0 \<le> negate (additional_words b)" "negate (additional_words b) < 4096"
    using negate_range[of "additional_words b"] assms by auto
  have "uint (word_of_int (negate (additional_words b)) :: pdp8_word) = negate (additional_words b)"
    by (subst uint_word_of_int_eq, rule take_bit_int_eq_self) (use r in simp_all)
  then have u: "unat (word_of_int (negate (additional_words b)) :: pdp8_word)
      = nat (negate (additional_words b))"
    by (simp add: unat_eq_nat_uint)
  have m: "(4 + 1 + negate (additional_words b)) mod 2 ^ 32 = 5 + negate (additional_words b)"
    using r by (simp add: mod_pos_pos_trivial)
  show "file_entry_length b = 5 + unat (word_of_int (negate (additional_words b)) :: pdp8_word)"
    unfolding file_entry_length_def m u using r by simp
  then show "file_entry_length b \<ge> 5" by simp
qed

lemma wr_many2:
  "p + 1 < OS8_BLOCK_SIZE \<Longrightarrow> wr_many ws p [a, b] = Inr (ws[p := a, Suc p := b])"
  by (simp add: wr_def bind_f_def)

text \<open>
  Claim C4 (frame of a deletion). For a present entry read by \<^verbatim>\<open>peek_entry\<close> in the
  entries area of a segment whose count of additional words and whose length word hold
  twelve bits, \<^verbatim>\<open>delete_entry\<close> succeeds; the entry's place holds a zero word followed by
  the unchanged length word; the words behind the entry move down by the entry's length
  less two; the words before the entry, the flag word apart, are unchanged, among them the
  count of files and the first file block; no other segment changes.
\<close>

theorem delete_entry_frame:
  assumes shape: "dir_shape d"
    and cur: "cur_dir_block c < DIR_LENGTH" "file_entries \<le> cur_entry c"
    and pk: "peek_entry d c e0 = Inr e" "\<not> empty_file e"
    and aw: "additional_words (d ! cur_dir_block c) < 4096"
    and lw: "data (d ! cur_dir_block c) !
               (cur_entry c + file_entry_length (d ! cur_dir_block c) - 1) < 4096"
  shows "\<exists>d' e'. delete_entry d e = Inr (d', e') \<and> empty_file e' \<and> dir_shape d' \<and>
     (let i = cur_dir_block c; p = cur_entry c; len = file_entry_length (d ! i);
          old = data (d ! i); new = data (d' ! i)
      in new ! p = 0 \<and> new ! (p + 1) = old ! (p + len - 1) \<and>
         (\<forall>k. p + 2 \<le> k \<and> k + (len - 2) < OS8_BLOCK_SIZE \<longrightarrow> new ! k = old ! (k + (len - 2))) \<and>
         (\<forall>k. k < p \<and> k \<noteq> 3 \<longrightarrow> new ! k = old ! k) \<and>
         number_files (d' ! i) = number_files (d ! i) \<and>
         first_file_block (d' ! i) = first_file_block (d ! i) \<and>
         dirty (d' ! i) \<and>
         (\<forall>j < DIR_LENGTH. j \<noteq> i \<longrightarrow> d' ! j = d ! j))"
proof -
  define i where "i = cur_dir_block c"
  define p where "p = cur_entry c"
  define len where "len = file_entry_length (d ! i)"
  define old where "old = data (d ! i)"
  define cnt where "cnt = (word_of_int (negate (additional_words (d ! i))) :: pdp8_word)"
  note pp = peek_entry_present[OF pk, folded i_def p_def cnt_def old_def]
  have len_eq: "len = 5 + unat cnt" and len5: "5 \<le> len"
    using file_entry_length_12bit[OF aw] by (simp_all add: len_def cnt_def i_def)
  have il: "i < length d" and lold: "length old = OS8_BLOCK_SIZE"
    using shape cur(1) by (auto simp: dir_shape_def list_all_length i_def old_def)
  have p5: "5 \<le> p" using cur(2) by (simp add: p_def file_entries_def)
  have fit: "p + len \<le> OS8_BLOCK_SIZE" using pp(3) len_eq by (simp add: cnt_def)
  have el: "entry_length dd e = Inr (file_entry_length (dd ! i))" for dd
    using pk(2) pp(1) by (simp add: entry_length_def)
  from shuffle_words_down_nth[of "p + 2" "p + len" old] len5 lold
  obtain ws where r: "shuffle_words_down old (p + len) (p + 2) (OS8_BLOCK_SIZE - 1) = Inr ws"
    "length ws = OS8_BLOCK_SIZE"
    "\<forall>k < OS8_BLOCK_SIZE. ws ! k =
       (if p + 2 \<le> k \<and> k + (p + len - (p + 2)) < OS8_BLOCK_SIZE
        then old ! (k + (p + len - (p + 2))) else old ! k)"
    by auto
  have ws_lo: "ws ! k = old ! k" if "k < p + 2" for k
    using r(3)[rule_format, of k] that fit len5 by (auto simp: OS8_BLOCK_SIZE_def)
  have ws_hi: "ws ! k = old ! (k + (len - 2))" if "p + 2 \<le> k" "k + (len - 2) < OS8_BLOCK_SIZE" for k
  proof -
    have "p + len - (p + 2) = len - 2" by simp
    with r(3)[rule_format, of k] that show ?thesis by auto
  qed
  obtain fw' where f: "fix_segment_down d e empty_entry_length
        = Inr (d[i := (d ! i)\<lparr>data := ws[3 := fw']\<rparr>])"
  proof (cases "ws ! 3 \<noteq> 0 \<and> uint (ws ! 3) - 768 > int p")
    case True
    have "fix_segment_down d e empty_entry_length = Inr (d[i := (d ! i)\<lparr>data :=
        ws[3 := ws ! 3 - (word_of_nat (file_entry_length (d[i := (d ! i)\<lparr>data := ws\<rparr>] ! i))
             - word_of_nat empty_entry_length)]\<rparr>])"
      using True r(1) unfolding fix_segment_down_def
      by (simp add: pp(1,2) el bind_f_def Let_def empty_entry_length_def len_def old_def)
    then show ?thesis by (rule that)
  next
    case False
    have "fix_segment_down d e empty_entry_length = Inr (d[i := (d ! i)\<lparr>data := ws\<rparr>])"
      using False r(1) unfolding fix_segment_down_def
      by (auto simp add: pp(1,2) el bind_f_def Let_def empty_entry_length_def len_def old_def)
    moreover have "ws[3 := ws ! 3] = ws" by simp
    ultimately show ?thesis using that[of "ws ! 3"] by simp
  qed
  define ws1 where "ws1 = ws[3 := fw']"
  define lenw where "lenw = (word_of_int (negate (e_length e)) :: pdp8_word)"
  define d1 where "d1 = d[i := (d ! i)\<lparr>data := ws1\<rparr>]"
  have lenw_eq: "lenw = old ! (p + len - 1)"
  proof -
    have "p + 4 + unat cnt = p + len - 1" using len_eq by simp
    then show ?thesis
      unfolding lenw_def pp(4) using negate_negate[OF lw]
      by (simp add: i_def p_def len_def old_def cnt_def)
  qed
  have p1: "p + 1 < OS8_BLOCK_SIZE" using fit len5 by simp
  have put: "put_entry d1 (e\<lparr>empty_file := True\<rparr>)
      = Inr (d1[i := (d1 ! i)\<lparr>dirty := True, data := ws1[p := 0, Suc p := lenw]\<rparr>])"
    using p1 il unfolding put_entry_def d1_def
    by (simp add: pp(1,2) wr_def bind_f_def Let_def lenw_def)
  define new where "new = ws1[p := 0, Suc p := lenw]"
  define d2 where "d2 = d1[i := (d1 ! i)\<lparr>dirty := True, data := new\<rparr>]"
  have del: "delete_entry d e = Inr (d2, e\<lparr>empty_file := True\<rparr>)"
    unfolding delete_entry_def f
    using put by (simp add: bind_f_def Let_def d1_def ws1_def d2_def new_def)
  have d2i: "d2 ! i = (d ! i)\<lparr>dirty := True, data := new\<rparr>"
    using il by (simp add: d2_def d1_def)
  have d2j: "d2 ! j = d ! j" if "j \<noteq> i" for j
    using that by (simp add: d2_def d1_def)
  have lnew: "length new = OS8_BLOCK_SIZE" by (simp add: new_def ws1_def r(2))
  have sh: "dir_shape d2"
    using shape lnew il unfolding dir_shape_def d2_def d1_def
    by (auto simp: list_all_length nth_list_update)
  have n0: "new ! p = 0" using p1 by (simp add: new_def ws1_def r(2))
  have n1: "new ! (p + 1) = old ! (p + len - 1)"
    using p1 by (simp add: new_def ws1_def r(2) lenw_eq)
  have nhi: "new ! k = old ! (k + (len - 2))" if "p + 2 \<le> k" "k + (len - 2) < OS8_BLOCK_SIZE" for k
    using that p5 ws_hi[OF that] by (simp add: new_def ws1_def)
  have nlo: "new ! k = old ! k" if "k < p" "k \<noteq> 3" for k
    using that ws_lo[of k] by (simp add: new_def ws1_def)
  have h0: "new ! 0 = old ! 0" "new ! 1 = old ! 1"
    using p5 nlo[of 0] nlo[of 1] by simp_all
  show ?thesis
    using del sh n0 n1 nhi nlo h0 d2i d2j
    by (simp add: Let_def number_files_def first_file_block_def
        i_def[symmetric] p_def[symmetric] len_def[symmetric] old_def[symmetric])
qed

theorem delete_entry_frame_witness:
  "dir_shape sample_directory \<and>
   peek_entry sample_directory (init_cursor sample_directory) blank_entry = Inr sample_file_entry \<and>
   (\<exists>d' e'. delete_entry sample_directory sample_file_entry = Inr (d', e') \<and> empty_file e' \<and>
      take 9 (data (d' ! 0)) = [4093, 7, 0, 781, 4095, 0, 4094, 0, 4086])"
proof -
  have h1: "dir_shape sample_directory" by code_simp
  have h2: "cur_dir_block (init_cursor sample_directory) < DIR_LENGTH" by code_simp
  have h3: "file_entries \<le> cur_entry (init_cursor sample_directory)" by code_simp
  have h4: "peek_entry sample_directory (init_cursor sample_directory) blank_entry
             = Inr sample_file_entry" by code_simp
  have h5: "\<not> empty_file sample_file_entry" by code_simp
  have h6: "additional_words (sample_directory ! cur_dir_block (init_cursor sample_directory)) < 4096"
    by code_simp
  have h7: "data (sample_directory ! cur_dir_block (init_cursor sample_directory)) !
      (cur_entry (init_cursor sample_directory)
        + file_entry_length (sample_directory ! cur_dir_block (init_cursor sample_directory)) - 1) < 4096"
    by code_simp
  have ev: "map_sum id (\<lambda>(d', e'). take 9 (data (d' ! 0)))
              (delete_entry sample_directory sample_file_entry)
            = Inr [4093, 7, 0, 781, 4095, 0, 4094, 0, 4086]"
    by code_simp
  from delete_entry_frame[OF h1 h2 h3 h4 h5 h6 h7]
  obtain d' e' where r: "delete_entry sample_directory sample_file_entry = Inr (d', e')" "empty_file e'"
    by blast
  from ev r(1) have "take 9 (data (d' ! 0)) = [4093, 7, 0, 781, 4095, 0, 4094, 0, 4086]"
    by simp
  with h1 h4 r show ?thesis by blast
qed

theorem fix_segment_up_flag_word_witness:
  "flag_word (sample_directory ! 0) = 785 \<and> e_entry sample_empty_entry = 11 \<and>
   (\<exists>d'. fix_segment_up sample_directory sample_empty_entry 6 19 = Inr d' \<and>
         flag_word (d' ! 0) = 791)"
proof -
  have h1: "dir_shape sample_directory" by code_simp
  have h2: "e_dir_block sample_empty_entry = Some 0" by code_simp
  have h3: "(0::nat) < DIR_LENGTH" by code_simp
  have h4: "file_entries \<le> e_entry sample_empty_entry" by code_simp
  have h5: "(19::nat) + 6 < OS8_BLOCK_SIZE" by code_simp
  have f: "flag_word (sample_directory ! 0) = 785" by code_simp
  have e: "e_entry sample_empty_entry = 11" by code_simp
  from fix_segment_up_flag_word[OF h1 h2 h3 h4 h5]
  show ?thesis unfolding f e Let_def by simp
qed

text \<open>
  Claim C7 as stated fails where the flag word refers to the insertion point itself: the
  words are shifted by 6 and the flag word \<^verbatim>\<open>01400 + 11\<close> stays, where the claim has it
  grow by 6.
\<close>

theorem fix_segment_up_at_entry_counterexample:
  "flag_word (flag_at_entry_directory ! 0) = 768 + 11 \<and>
   e_entry sample_empty_entry = 11 \<and>
   map_sum id (\<lambda>d'. flag_word (d' ! 0))
     (fix_segment_up flag_at_entry_directory sample_empty_entry 6 19) = Inr (768 + 11) \<and>
   (768 + 11 :: pdp8_word) \<noteq> 768 + 11 + 6"
  by code_simp

section \<open>Allocation of an empty slot\<close>

lemma get_empty_loop_fold:
  "walk n d c entry = Some (Inr es) \<Longrightarrow>
   get_empty_loop n d ex len c entry best =
     Some (Inr (foldl (\<lambda>b e. if better ex len b e then e else b) best es))"
proof (induction n arbitrary: c entry best es)
  case 0
  then show ?case by simp
next
  case (Suc n)
  from Suc.prems show ?case
    by (auto simp: bind_o_def lift_f_def Suc.IH
        split: option.splits sum.splits if_splits prod.splits)
qed

lemma pick_invariant:
  assumes "e_length best = 0"
  shows "(filter (candidate ex len) es = [] \<and>
          e_length (foldl (\<lambda>b e. if better ex len b e then e else b) best es) = 0) \<or>
         (\<exists>pre post. filter (candidate ex len) es =
              pre @ foldl (\<lambda>b e. if better ex len b e then e else b) best es # post \<and>
            e_length (foldl (\<lambda>b e. if better ex len b e then e else b) best es) \<noteq> 0 \<and>
            (\<forall>e \<in> set pre. if len = 0
               then e_length e < e_length (foldl (\<lambda>b e. if better ex len b e then e else b) best es)
               else e_length (foldl (\<lambda>b e. if better ex len b e then e else b) best es) < e_length e) \<and>
            (\<forall>e \<in> set post. if len = 0
               then e_length e \<le> e_length (foldl (\<lambda>b e. if better ex len b e then e else b) best es)
               else e_length (foldl (\<lambda>b e. if better ex len b e then e else b) best es) \<le> e_length e))"
proof (induction es rule: rev_induct)
  case Nil
  then show ?case using assms(1) by simp
next
  case (snoc x es)
  define r where "r = foldl (\<lambda>b e. if better ex len b e then e else b) best es"
  define cands where "cands = filter (candidate ex len) es"
  note IH = snoc.IH[folded r_def cands_def]
  show ?case
  proof (cases "better ex len r x")
    case True
    then have new: "foldl (\<lambda>b e. if better ex len b e then e else b) best (es @ [x]) = x"
      by (simp add: r_def)
    show ?thesis
    proof (cases "e_length x = 0")
      case z: True
      with True have "e_length r = 0"
        by (auto simp: better_def split: if_splits)
      with IH have "cands = []" by auto
      moreover have "\<not> candidate ex len x" using z by (simp add: candidate_def)
      ultimately show ?thesis unfolding new using z by (simp add: cands_def)
    next
      case nz: False
      with True have cx: "candidate ex len x" by (auto simp: better_def candidate_def)
      then have c': "filter (candidate ex len) (es @ [x]) = cands @ [x]" by (simp add: cands_def)
      from IH show ?thesis
      proof
        assume "cands = [] \<and> e_length r = 0"
        then show ?thesis unfolding new c' using nz
          by (intro disjI2 exI[of _ "[]"]) auto
      next
        assume "\<exists>pre post. cands = pre @ r # post \<and> e_length r \<noteq> 0 \<and>
            (\<forall>e \<in> set pre. if len = 0 then e_length e < e_length r else e_length r < e_length e) \<and>
            (\<forall>e \<in> set post. if len = 0 then e_length e \<le> e_length r else e_length r \<le> e_length e)"
        then obtain pre post where p: "cands = pre @ r # post" "e_length r \<noteq> 0"
            "\<forall>e \<in> set pre. if len = 0 then e_length e < e_length r else e_length r < e_length e"
            "\<forall>e \<in> set post. if len = 0 then e_length e \<le> e_length r else e_length r \<le> e_length e"
          by blast
        from True p(2) have s: "if len = 0 then e_length x > e_length r else e_length x < e_length r"
          by (auto simp: better_def split: if_splits)
        have "cands @ [x] = (pre @ r # post) @ x # []" using p(1) by simp
        moreover have "\<forall>e \<in> set (pre @ r # post).
            if len = 0 then e_length e < e_length x else e_length x < e_length e"
          using p(3,4) s by (auto split: if_splits)
        ultimately show ?thesis unfolding new c' using nz by (intro disjI2 exI[of _ "pre @ r # post"] exI[of _ "[]"]) auto
      qed
    qed
  next
    case False
    then have new: "foldl (\<lambda>b e. if better ex len b e then e else b) best (es @ [x]) = r"
      by (simp add: r_def)
    show ?thesis
    proof (cases "candidate ex len x")
      case nc: False
      then have "filter (candidate ex len) (es @ [x]) = cands" by (simp add: cands_def)
      with IH show ?thesis unfolding new by simp
    next
      case cx: True
      then have c': "filter (candidate ex len) (es @ [x]) = cands @ [x]" by (simp add: cands_def)
      from cx False have nb: "e_length r \<noteq> 0"
        "if len = 0 then e_length x \<le> e_length r else e_length r \<le> e_length x"
        by (auto simp: better_def candidate_def split: if_splits)
      with IH obtain pre post where p: "cands = pre @ r # post"
            "\<forall>e \<in> set pre. if len = 0 then e_length e < e_length r else e_length r < e_length e"
            "\<forall>e \<in> set post. if len = 0 then e_length e \<le> e_length r else e_length r \<le> e_length e"
        by blast
      have "cands @ [x] = pre @ r # (post @ [x])" using p(1) by simp
      moreover have "\<forall>e \<in> set (post @ [x]).
            if len = 0 then e_length e \<le> e_length r else e_length r \<le> e_length e"
        using p(3) nb(2) by (auto split: if_splits)
      ultimately show ?thesis unfolding new c' using nb(1) p(2)
        by (intro disjI2 exI[of _ pre] exI[of _ "post @ [x]"]) auto
    qed
  qed
qed

lemma get_empty_entry_fold:
  assumes "walk n d (init_cursor d) blank_entry = Some (Inr es)"
  shows "get_empty_entry n d ex best0 len =
     Some (Inr (e_length (foldl (\<lambda>b e. if better ex len b e then e else b)
                            (best0\<lparr>e_length := 0\<rparr>) es) \<noteq> 0,
                foldl (\<lambda>b e. if better ex len b e then e else b) (best0\<lparr>e_length := 0\<rparr>) es))"
  by (simp add: get_empty_entry_def get_empty_loop_fold[OF assms] bind_o_def)

text \<open>
  Claim C2 (allocation of an empty slot), as the code has it. Whenever the cursor walk of
  the directory ends, giving the entries \<open>es\<close>, \<^verbatim>\<open>get_empty_entry\<close> ends too. The
  candidates are the empty files of non-zero length in \<open>es\<close> that are not the excluded
  entry (by block and file number) and are at least as long as the request. The call
  reports success exactly when there is a candidate, and then returns a candidate that is
  the longest of all for a request of 0 and the shortest of all for any other request.
\<close>

theorem get_empty_entry_best_fit:
  assumes "walk n d (init_cursor d) blank_entry = Some (Inr es)"
  shows "\<exists>found best. get_empty_entry n d ex best0 len = Some (Inr (found, best)) \<and>
     (found \<longleftrightarrow> filter (candidate ex len) es \<noteq> []) \<and>
     (found \<longrightarrow> best \<in> set (filter (candidate ex len) es) \<and>
        (\<forall>e \<in> set (filter (candidate ex len) es).
           if len = 0 then e_length e \<le> e_length best else e_length best \<le> e_length e))"
proof -
  define r where "r = foldl (\<lambda>b e. if better ex len b e then e else b) (best0\<lparr>e_length := 0\<rparr>) es"
  have g: "get_empty_entry n d ex best0 len = Some (Inr (e_length r \<noteq> 0, r))"
    unfolding r_def by (rule get_empty_entry_fold[OF assms])
  have "e_length (best0\<lparr>e_length := 0\<rparr>) = 0" by simp
  from pick_invariant[OF this, of ex len es, folded r_def]
  show ?thesis
  proof
    assume "filter (candidate ex len) es = [] \<and> e_length r = 0"
    then show ?thesis using g by (intro exI[of _ False] exI[of _ r]) simp
  next
    assume "\<exists>pre post. filter (candidate ex len) es = pre @ r # post \<and> e_length r \<noteq> 0 \<and>
        (\<forall>e \<in> set pre. if len = 0 then e_length e < e_length r else e_length r < e_length e) \<and>
        (\<forall>e \<in> set post. if len = 0 then e_length e \<le> e_length r else e_length r \<le> e_length e)"
    then obtain pre post where p: "filter (candidate ex len) es = pre @ r # post" "e_length r \<noteq> 0"
        "\<forall>e \<in> set pre. if len = 0 then e_length e < e_length r else e_length r < e_length e"
        "\<forall>e \<in> set post. if len = 0 then e_length e \<le> e_length r else e_length r \<le> e_length e"
      by blast
    have "\<forall>e \<in> set (pre @ r # post).
        if len = 0 then e_length e \<le> e_length r else e_length r \<le> e_length e"
      using p(3,4) by (auto split: if_splits)
    then show ?thesis using g p(1,2) by (intro exI[of _ True] exI[of _ r]) simp
  qed
qed


lemma tie_walk:
  "map_option (map_sum id (map (\<lambda>e. (empty_file e, e_entry e, e_length e))))
     (walk 10 tie_directory (init_cursor tie_directory) blank_entry)
   = Some (Inr [(True, 5, 4), (False, 7, 1), (True, 13, 4), (False, 15, 1), (True, 21, 7)])"
  by code_simp

theorem get_empty_entry_best_fit_witness:
  "map_option (map_sum id (\<lambda>(found, best). (found, e_entry best, e_length best)))
     (get_empty_entry 10 tie_directory blank_entry blank_entry 0) = Some (Inr (True, 21, 7))"
proof -
  obtain es where w: "walk 10 tie_directory (init_cursor tie_directory) blank_entry = Some (Inr es)"
    using tie_walk by (cases "walk 10 tie_directory (init_cursor tie_directory) blank_entry")
      (auto simp: map_sum_def split: sum.splits)
  have ev: "map_option (map_sum id (\<lambda>(found, best). (found, e_entry best, e_length best)))
     (get_empty_entry 10 tie_directory blank_entry blank_entry 0) = Some (Inr (True, 21, 7))"
    by code_simp
  from get_empty_entry_best_fit[OF w, of blank_entry blank_entry 0] ev show ?thesis by simp
qed


text \<open>
  Claim C2 as stated fails on a directory whose only entry is an empty file of length zero:
  the entry is an empty file, it is not excluded, and it is the longest empty file there
  is, yet a request of 0 reports failure.
\<close>

theorem get_empty_entry_zero_length_counterexample:
  "map_option (map_sum id (map (\<lambda>e. (empty_file e, e_dir_block e, e_length e))))
     (walk 10 zero_length_directory (init_cursor zero_length_directory) blank_entry)
     = Some (Inr [(True, Some 0, 0)]) \<and>
   e_dir_block blank_entry = None \<and>
   map_option (map_sum id fst)
     (get_empty_entry 10 zero_length_directory blank_entry blank_entry 0) = Some (Inr False)"
  by code_simp





section \<open>Consolidation\<close>

text \<open>
  Claim C3 (one pass of \<^verbatim>\<open>consolidate\<close>) on the directory that \<^verbatim>\<open>enter\<close> leaves when a file
  of one block fills an empty file of one block standing before two files: the walk finds
  the file \<^verbatim>\<open>D\<close>, an empty file of length zero, the files \<^verbatim>\<open>B.TX\<close> and \<^verbatim>\<open>C\<close>, and an empty
  file of 1464 blocks. No two empty files are adjacent, so the pass has one entry to
  remove. It returns the directory \<open>exact_fit_consolidated\<close>, whose file count has gone
  from five to three: after the removal the cursor stays two words beyond the removed
  entry, where the third word of the entry of \<^verbatim>\<open>B.TX\<close> now lies, and the pass takes that
  word for the start of an empty file and merges it with the words behind it. The walk of
  the result finds \<^verbatim>\<open>D\<close>, a file of length zero with a changed name, and an empty file of
  length zero; \<^verbatim>\<open>C\<close> and the 1464 free blocks are gone.
\<close>

theorem consolidate_loses_entries:
  "map_option (map_sum id (map (\<lambda>e. (if empty_file e then [] else name e, e_length e))))
     (walk 10 exact_fit_directory (init_cursor exact_fit_directory) blank_entry)
     = Some (Inr [([256, 0, 0, 0], 1), ([], 0), ([128, 0, 0, 1304], 1), ([192, 0, 0, 0], 1),
                  ([], 1464)]) \<and>
   consolidate 10 exact_fit_directory = Some (Inr exact_fit_consolidated) \<and>
   map_option (map_sum id (map (\<lambda>e. (if empty_file e then [] else name e, e_length e))))
     (walk 10 exact_fit_consolidated (init_cursor exact_fit_consolidated) blank_entry)
     = Some (Inr [([256, 0, 0, 0], 1), ([128, 0, 0, 1303], 0), ([], 0)])"
  by code_simp

section \<open>Text copy from the host\<close>

lemma pack3_puts:
  "ps_i (fst st) mod 3 = 0 \<Longrightarrow>
   snd (foldl put_os8_char st (cs @ [0, 0])) = snd st @ pack3 cs"
proof (induction cs arbitrary: st rule: pack3.induct)
  case (1 a b c r)
  obtain s t where st: "st = (s, t)" by (cases st)
  from 1(2) st have m: "ps_i s mod 3 = 0" by simp
  then have m1: "Suc (ps_i s) mod 3 = 1" and m2: "Suc (Suc (ps_i s)) mod 3 = 2"
    and m3: "Suc (Suc (Suc (ps_i s))) mod 3 = 0"
    by presburger+
  define st3 where "st3 = put_os8_char (put_os8_char (put_os8_char st a) b) c"
  have s3: "snd st3 = t @ [a OR push_bit 4 (c AND 0xF0), b OR push_bit 8 (c AND 15)]"
    and i3: "ps_i (fst st3) mod 3 = 0"
    unfolding st3_def st using m m1 m2 m3 by (simp_all add: put_os8_char_def Let_def)
  have "foldl put_os8_char st ((a # b # c # r) @ [0, 0]) = foldl put_os8_char st3 (r @ [0, 0])"
    by (simp add: st3_def)
  then show ?case using "1.IH"[OF i3] s3 st by simp
next
  case (2 a b)
  obtain s t where st: "st = (s, t)" by (cases st)
  from 2 st have m: "ps_i s mod 3 = 0" by simp
  then have m1: "Suc (ps_i s) mod 3 = 1" and m2: "Suc (Suc (ps_i s)) mod 3 = 2"
    and m3: "Suc (Suc (Suc (ps_i s))) mod 3 = 0"
    by presburger+
  show ?case unfolding st using m m1 m2 m3 by (simp add: put_os8_char_def Let_def)
next
  case (3 a)
  obtain s t where st: "st = (s, t)" by (cases st)
  from 3 st have m: "ps_i s mod 3 = 0" by simp
  then have m1: "Suc (ps_i s) mod 3 = 1" and m2: "Suc (Suc (ps_i s)) mod 3 = 2"
    by presburger+
  show ?case unfolding st using m m1 m2 by (simp add: put_os8_char_def Let_def)
next
  case 4
  obtain s t where st: "st = (s, t)" by (cases st)
  from 4 st have m: "ps_i s mod 3 = 0" by simp
  then have m1: "Suc (ps_i s) mod 3 = 1" by presburger
  show ?case unfolding st using m m1 by (simp add: put_os8_char_def Let_def)
qed

lemma text_loop_seen: "text_loop True cs st = (True, st)"
  by (cases cs) simp_all

lemma text_loop_puts:
  "list_all (\<lambda>c. c < 0x80) input \<Longrightarrow>
   text_loop False input st =
     (0x1A \<in> set input,
      foldl put_os8_char st
        (concat (map (\<lambda>c. if c = 0x0A then [0x8D, mark c] else if c = 0 then [] else [mark c])
                   (upto_ctrl_z input))))"
proof (induction input arbitrary: st)
  case Nil
  then show ?case by simp
next
  case (Cons c cs)
  then have c: "c \<noteq> 0xFF" and cs: "list_all (\<lambda>c. c < 0x80) cs" by auto
  show ?case
  proof (cases "c = 0x1A")
    case True
    then show ?thesis using c by (simp add: text_loop_seen)
  next
    case False
    then show ?thesis using c Cons.IH[OF cs] by (simp add: Let_def)
  qed
qed

lemma last_upto_ctrl_z:
  "(upto_ctrl_z input \<noteq> [] \<and> last (upto_ctrl_z input) = 0x1A) \<longleftrightarrow> 0x1A \<in> set input"
  by (induction input) auto

text \<open>
  Claim C8 (text copy from the host), as the code has it. For an input of bytes below
  0x80, with \<^verbatim>\<open>ctrl_z_seen\<close> false at the start and the call count of \<^verbatim>\<open>put_os8_char\<close> a
  multiple of three, the words written are the packing, three characters to two words
  with the last group filled with zero, of the characters of the input up to and
  including its first control-Z: a 0x8D before every line feed, every character but NUL
  with the mark bit set, and a closing 0x9A when the input holds no control-Z. What
  follows the first control-Z is not copied.
\<close>

theorem stream_host_text_words_packed:
  assumes "list_all (\<lambda>c. c < 0x80) input" and "ps_i statics mod 3 = 0"
  shows "snd (stream_host_text_words False statics input) = pack3 (text_chars (upto_ctrl_z input))"
proof -
  let ?f = "\<lambda>c. if c = 0x0A then [0x8D, mark c] else if c = 0 then [] else [mark c]"
  let ?cs = "concat (map ?f (upto_ctrl_z input))"
  let ?tail = "if 0x1A \<in> set input then [] else [0x9A :: pdp8_word]"
  have "stream_host_text_words False statics input
        = foldl put_os8_char (statics, []) ((?cs @ ?tail) @ [0, 0])"
    unfolding stream_host_text_words_def text_loop_puts[OF assms(1)] by (simp add: Let_def)
  then have "snd (stream_host_text_words False statics input) = pack3 (?cs @ ?tail)"
    using pack3_puts[of "(statics, [])" "?cs @ ?tail"] assms(2) by simp
  moreover have "text_chars (upto_ctrl_z input) = ?cs @ ?tail"
    unfolding text_chars_def using last_upto_ctrl_z[of input] by auto
  ultimately show ?thesis by simp
qed

theorem stream_host_text_words_packed_witness:
  "snd (stream_host_text_words False \<lparr>ps_i = 0, ps_w0 = 0, ps_w1 = 0\<rparr>
          [0x66, 0x6F, 0x6F, 0x0A, 0x62, 0x61, 0x72, 0x0A])
   = [3814, 4079, 3725, 650, 2273, 3570, 138, 154]"
proof -
  have h1: "list_all (\<lambda>c. c < 0x80) [0x66, 0x6F, 0x6F, 0x0A, 0x62, 0x61, 0x72, 0x0A :: byte]"
    by simp
  have h2: "ps_i \<lparr>ps_i = 0, ps_w0 = 0, ps_w1 = 0\<rparr> mod 3 = 0" by simp
  have ev: "pack3 (text_chars (upto_ctrl_z [0x66, 0x6F, 0x6F, 0x0A, 0x62, 0x61, 0x72, 0x0A]))
      = [3814, 4079, 3725, 650, 2273, 3570, 138, 154]"
    by code_simp
  show ?thesis
    using stream_host_text_words_packed[OF h1 h2] ev by simp
qed

text \<open>
  Claim C8 as stated fails on an input with a control-Z before its end: of the two bytes
  0x1A 0x41 only the control-Z is stored, where the claim has the marked 0x41 and a
  closing 0x9A follow it.
\<close>

theorem stream_host_text_words_ctrl_z_counterexample:
  "snd (stream_host_text_words False \<lparr>ps_i = 0, ps_w0 = 0, ps_w1 = 0\<rparr> [0x1A, 0x41]) = [154, 0] \<and>
   pack3 (text_chars [0x1A, 0x41]) = [2458, 2753]"
  by code_simp


end
